theory Spec2Isabelle
  imports Main
begin

text \<open>
  The message dispatch core of the assistant: the history normalisation, the error
  classification, the directive parser and the visual pipeline of the service module, and
  the credential rotation loop and the render completion of the application component.
  Calls that leave the program (the text backend, the image backend, the clock) are
  parameters; module-level variables and component state are records passed in and out.
\<close>

section \<open>Strings\<close>

text \<open>
  JavaScript strings are modelled as \<^typ>\<open>string\<close>: a list of 8-bit characters, read as
  the code units below 256. The line terminators U+2028 and U+2029 and the white space
  beyond U+00A0 are therefore outside the model.
\<close>

definition startsWith :: "string \<Rightarrow> string \<Rightarrow> bool" where
  \<comment> \<open>\<^verbatim>\<open>s.startsWith(p)\<close>\<close>
  "startsWith s p = (take (length p) s = p)"

fun str_includes :: "string \<Rightarrow> string \<Rightarrow> bool" where
  \<comment> \<open>\<^verbatim>\<open>s.includes(p)\<close>: \<open>p\<close> occurs at some position of \<open>s\<close>\<close>
  "str_includes [] p = (p = [])"
| "str_includes (c # cs) p = (startsWith (c # cs) p \<or> str_includes cs p)"

definition is_line_terminator :: "char \<Rightarrow> bool" where
  \<comment> \<open>what the regular expression atom \<^verbatim>\<open>.\<close> does not match\<close>
  "is_line_terminator c = (c = CHR 0x0A \<or> c = CHR 0x0D)"

definition is_space :: "char \<Rightarrow> bool" where
  \<comment> \<open>the class \<^verbatim>\<open>\s\<close>, also what \<^verbatim>\<open>trim()\<close> removes\<close>
  "is_space c = (c = CHR 0x09 \<or> c = CHR 0x0A \<or> c = CHR 0x0B \<or> c = CHR 0x0C \<or> c = CHR 0x0D
                 \<or> c = CHR 0x20 \<or> c = CHR 0xA0)"

definition is_word_char :: "char \<Rightarrow> bool" where
  \<comment> \<open>the class \<^verbatim>\<open>\w\<close>: \<^verbatim>\<open>[A-Za-z0-9_]\<close>\<close>
  "is_word_char c = (let n = (of_char c :: nat) in
     (48 \<le> n \<and> n \<le> 57) \<or> (65 \<le> n \<and> n \<le> 90) \<or> (97 \<le> n \<and> n \<le> 122) \<or> n = 95)"

definition trim :: "string \<Rightarrow> string" where
  \<comment> \<open>\<^verbatim>\<open>s.trim()\<close>\<close>
  "trim s = rev (dropWhile is_space (rev (dropWhile is_space s)))"

fun greedy_until :: "string \<Rightarrow> string \<Rightarrow> string option" where
  \<comment> \<open>the capture of \<^verbatim>\<open>(.*)pat\<close> on one line: the longest prefix that \<open>pat\<close> follows\<close>
  "greedy_until pat [] = (if pat = [] then Some [] else None)"
| "greedy_until pat (c # cs) =
     (case greedy_until pat cs of
        Some t \<Rightarrow> Some (c # t)
      | None \<Rightarrow> if startsWith (c # cs) pat then Some [] else None)"

section \<open>Data model (types.ts)\<close>

datatype Role = User | Model

record Message =
  m_id :: string
  m_role :: Role
  m_text :: string
  m_image :: "string option"
  m_isError :: "bool option"
  m_isImageLoading :: "bool option"

datatype Part = InlineData (mimeType: string) (data: string) | Text string

record Content =
  role :: Role
  parts :: "Part list"

section \<open>History normalisation: \<^verbatim>\<open>formatHistoryForGemini\<close>\<close>

definition data_url_mime :: "string \<Rightarrow> string option" where
  \<comment> \<open>\<^verbatim>\<open>(image.match(/^data:(.*);base64,/) || [])[1]\<close>; \<open>None\<close> is \<^verbatim>\<open>undefined\<close>\<close>
  "data_url_mime img =
     (if startsWith img ''data:''
      then greedy_until '';base64,'' (takeWhile (\<lambda>c. \<not> is_line_terminator c) (drop 5 img))
      else None)"

definition strip_data_prefix :: "string \<Rightarrow> string" where
  \<comment> \<open>\<^verbatim>\<open>image.replace(/^data:image\/\w+;base64,/, "")\<close>\<close>
  "strip_data_prefix img =
     (if startsWith img ''data:image/''
      then (let r = drop 11 img; w = takeWhile is_word_char r; r' = dropWhile is_word_char r
            in if w \<noteq> [] \<and> startsWith r' '';base64,'' then drop 8 r' else img)
      else img)"

definition image_parts :: "string option \<Rightarrow> Part list" where
  \<comment> \<open>lines 102-106: the inline-image part of a user message, if any\<close>
  "image_parts im =
     (case im of
        None \<Rightarrow> []
      | Some img \<Rightarrow>
          if startsWith img ''data:''
          then (let mt = data_url_mime img; d = strip_data_prefix img
                in case mt of
                     None \<Rightarrow> []
                   | Some t \<Rightarrow> if d \<noteq> [] \<and> t \<noteq> [] then [InlineData t d] else [])
          else [])"

definition user_parts :: "Message \<Rightarrow> Part list" where
  \<comment> \<open>lines 101-107\<close>
  "user_parts h = image_parts (m_image h) @ (if m_text h \<noteq> [] then [Text (m_text h)] else [])"

fun collect_valid :: "Message list \<Rightarrow> Content list \<Rightarrow> Content list" where
  \<comment> \<open>the loop of lines 98-112, \<open>vh\<close> is \<^verbatim>\<open>validHistory\<close>\<close>
  "collect_valid [] vh = vh"
| "collect_valid (h # hs) vh =
     (if m_isError h = Some True then collect_valid hs vh
      else if m_role h = User
      then (let ps = user_parts h
            in if length ps > 0 then collect_valid hs (vh @ [\<lparr>role = User, parts = ps\<rparr>])
               else collect_valid hs vh)
      else collect_valid hs
             (vh @ [\<lparr>role = Model, parts = [Text (if m_text h \<noteq> [] then m_text h else ''...'')]\<rparr>]))"

fun merge_loop :: "Content \<Rightarrow> Content list \<Rightarrow> Content list \<Rightarrow> Content list" where
  \<comment> \<open>the loop of lines 118-126 on the rest of \<^verbatim>\<open>validHistory\<close>\<close>
  "merge_loop current [] merged = merged @ [current]"
| "merge_loop current (v # vs) merged =
     (if role v = role current
      then merge_loop (current\<lparr>parts := parts current @ parts v\<rparr>) vs merged
      else merge_loop v vs (merged @ [current]))"

definition merge_turns :: "Content list \<Rightarrow> Content list" where
  \<comment> \<open>lines 115-127\<close>
  "merge_turns vh = (case vh of [] \<Rightarrow> [] | v # vs \<Rightarrow> merge_loop v vs [])"

fun shift_models :: "Content list \<Rightarrow> Content list" where
  \<comment> \<open>line 128: \<^verbatim>\<open>while (merged.length > 0 && merged[0].role === 'model') merged.shift()\<close>\<close>
  "shift_models [] = []"
| "shift_models (c # cs) = (if role c = Model then shift_models cs else c # cs)"

definition push_placeholder :: "Content list \<Rightarrow> Content list" where
  \<comment> \<open>lines 129-131\<close>
  "push_placeholder merged =
     (if length merged > 1 \<and> role (last merged) = User
      then merged @ [\<lparr>role = Model, parts = [Text ''...'']\<rparr>]
      else merged)"

definition finish_history :: "Content list \<Rightarrow> Content list" where
  \<comment> \<open>lines 128-132\<close>
  "finish_history merged = push_placeholder (shift_models merged)"

definition formatHistoryForGemini :: "Message list \<Rightarrow> Content list" where
  "formatHistoryForGemini history = finish_history (merge_turns (collect_valid history []))"

section \<open>Error classification\<close>

datatype ErrorType = QUOTA_EXCEEDED | AUTH_ERROR | GENERAL

text \<open>
  A raw error is whatever a backend call throws. The shapes are those \<^verbatim>\<open>getErrorMessage\<close>
  tells apart; each carries the strings JavaScript would compute from it.
\<close>

datatype RawError =
    ErrorInstance string
      \<comment> \<open>\<^verbatim>\<open>e instanceof Error\<close>, with \<^verbatim>\<open>e.message\<close>\<close>
  | StringValue string
      \<comment> \<open>\<^verbatim>\<open>typeof e === 'string'\<close>\<close>
  | ObjectValue "string option" "string option" string
      \<comment> \<open>another non-null object: \<^verbatim>\<open>String(e.message)\<close> when \<^verbatim>\<open>e.message\<close> is truthy,
          \<^verbatim>\<open>JSON.stringify(e)\<close> unless it throws, and \<^verbatim>\<open>String(e)\<close>\<close>
  | OtherValue string
      \<comment> \<open>anything else, with \<^verbatim>\<open>String(e)\<close>\<close>

fun getErrorMessage :: "RawError \<Rightarrow> string" where
  "getErrorMessage (ErrorInstance m) = m"
| "getErrorMessage (StringValue s) = s"
| "getErrorMessage (ObjectValue msg json str) =
     (case msg of
        Some m \<Rightarrow> m
      | None \<Rightarrow> (case json of Some j \<Rightarrow> j | None \<Rightarrow> str))"
| "getErrorMessage (OtherValue s) = s"

definition lower_char :: "char \<Rightarrow> char" where
  \<comment> \<open>\<^verbatim>\<open>toLowerCase\<close> on one code unit below 256: A-Z and the Latin-1 capitals\<close>
  "lower_char c = (let n = (of_char c :: nat) in
     if (65 \<le> n \<and> n \<le> 90) \<or> (192 \<le> n \<and> n \<le> 222 \<and> n \<noteq> 215) then char_of (n + 32) else c)"

definition toLowerCase :: "string \<Rightarrow> string" where
  "toLowerCase s = map lower_char s"

definition classify :: "string \<Rightarrow> string \<times> ErrorType" where
  \<comment> \<open>lines 425-434: the user message and the error type chosen from the lower-cased text\<close>
  "classify lowerError =
     (if str_includes lowerError ''429'' \<or> str_includes lowerError ''exhausted''
         \<or> str_includes lowerError ''quota''
      then (''I've hit my usage limit for now (Quota Exceeded).'', QUOTA_EXCEEDED)
      else if str_includes lowerError ''403'' \<or> str_includes lowerError ''key''
      then (''API key invalid.'', AUTH_ERROR)
      else (''Connection interrupted.'', GENERAL))"

section \<open>Directives in a reply\<close>

fun find_close :: "string \<Rightarrow> (string \<times> string) option" where
  \<comment> \<open>the lazy \<^verbatim>\<open>(.*?)\]\<close>: the text before the first \<^verbatim>\<open>]\<close> of the line, and what follows it\<close>
  "find_close [] = None"
| "find_close (c # cs) =
     (if c = CHR '']'' then Some ([], cs)
      else if is_line_terminator c then None
      else (case find_close cs of None \<Rightarrow> None | Some (d, r) \<Rightarrow> Some (c # d, r)))"

definition directive_at :: "string \<Rightarrow> string \<Rightarrow> (string option \<times> string) option" where
  \<comment> \<open>\<^verbatim>\<open>\[SELFIE(?::\s*(.*?))?\]\<close> (or SCENE) matched at the head of \<open>s\<close>, \<open>kw\<close> being
      \<^verbatim>\<open>[SELFIE\<close>: the captured group (\<open>None\<close> when the group is not taken) and the
      text after the match. The greedy \<^verbatim>\<open>\s*\<close> takes all the white space: giving some
      back only hands it to \<^verbatim>\<open>.*?\<close>, which then stops where it stopped before.\<close>
  "directive_at kw s =
     (if startsWith s kw
      then (case drop (length kw) s of
              [] \<Rightarrow> None
            | c # cs \<Rightarrow>
                if c = CHR '':''
                then (case find_close (dropWhile is_space cs) of
                        None \<Rightarrow> None
                      | Some (d, r) \<Rightarrow> Some (Some d, r))
                else if c = CHR '']'' then Some (None, cs)
                else None)
      else None)"

fun directive_match :: "string \<Rightarrow> string \<Rightarrow> string option option" where
  \<comment> \<open>\<^verbatim>\<open>replyText.match(...)\<close>: the group of the leftmost match, \<open>None\<close> for \<^verbatim>\<open>null\<close>\<close>
  "directive_match kw [] = None"
| "directive_match kw (c # cs) =
     (case directive_at kw (c # cs) of
        Some (g, r) \<Rightarrow> Some g
      | None \<Rightarrow> directive_match kw cs)"

fun strip_from :: "string \<Rightarrow> nat \<Rightarrow> string \<Rightarrow> string" where
  \<comment> \<open>\<^verbatim>\<open>replace(/.../g, "")\<close>: the scan goes left to right and resumes after each match;
      \<open>skip\<close> counts the characters of the current match that are still to be deleted\<close>
  "strip_from kw skip [] = []"
| "strip_from kw (Suc n) (c # cs) = strip_from kw n cs"
| "strip_from kw 0 (c # cs) =
     (case directive_at kw (c # cs) of
        Some (g, r) \<Rightarrow> strip_from kw (length cs - length r) cs
      | None \<Rightarrow> c # strip_from kw 0 cs)"

definition SELFIE_KW :: string where "SELFIE_KW = ''[SELFIE''"
definition SCENE_KW :: string where "SCENE_KW = ''[SCENE''"

definition strip_tags :: "string \<Rightarrow> string" where
  \<comment> \<open>line 409\<close>
  "strip_tags replyText = trim (strip_from SCENE_KW 0 (strip_from SELFIE_KW 0 replyText))"

datatype VisualType = scene | selfie

record GenerationSettings =
  aiImageGeneration :: bool
  \<comment> \<open>the numeric knobs are handed to the backends as they are and decide nothing here\<close>

record EveResponse =
  r_text :: string
  r_image :: "string option"
  visualPrompt :: "string option"
  visualType :: "VisualType option"
  isError :: "bool option"
  errorMessage :: "string option"
  errorType :: "ErrorType option"
  enhancedPrompt :: "string option"

definition userTriggerWords :: "string list" where
  "userTriggerWords = [''photo'', ''pic'', ''selfie'', ''image'', ''see you'', ''show me'',
                       ''nude'', ''naked'', ''look at you'', ''send me'']"

definition isUserRequestingImage :: "string \<Rightarrow> bool" where
  "isUserRequestingImage message =
     list_ex (\<lambda>word. str_includes (toLowerCase message) word) userTriggerWords"

definition truthy :: "string option \<Rightarrow> bool" where
  \<comment> \<open>an optional string in a condition: present and not empty\<close>
  "truthy v = (case v of None \<Rightarrow> False | Some t \<Rightarrow> t \<noteq> [])"

definition or_default :: "string option \<Rightarrow> string \<Rightarrow> string" where
  \<comment> \<open>\<^verbatim>\<open>match[1] || dflt\<close>: an absent or empty group gives the default\<close>
  "or_default g dflt = (case g of None \<Rightarrow> dflt | Some d \<Rightarrow> if d = [] then dflt else d)"

definition choose_visual ::
  "GenerationSettings \<Rightarrow> string \<Rightarrow> string \<Rightarrow> nat \<Rightarrow> string option \<times> VisualType \<times> nat" where
  \<comment> \<open>lines 382-406: the visual prompt, the visual type and the new \<^verbatim>\<open>textOnlyMessageCount\<close>\<close>
  "choose_visual genSettings message replyText count =
     (let selfieMatch = directive_match SELFIE_KW replyText;
          sceneMatch = directive_match SCENE_KW replyText
      in if aiImageGeneration genSettings
         then (case selfieMatch of
                 Some g \<Rightarrow> (Some (or_default g ''looking at the camera''), selfie, 0)
               | None \<Rightarrow>
                   (case sceneMatch of
                      Some g \<Rightarrow>
                        if isUserRequestingImage message \<or> count \<ge> 4
                        then (Some (or_default g ''a scenic view from the user's perspective''),
                              scene, 0)
                        else (None, scene, count + 1)
                    | None \<Rightarrow> (None, scene, count + 1)))
         else (None, scene, count + 1))"

definition endpoint_missing :: "string option \<Rightarrow> bool" where
  \<comment> \<open>\<^verbatim>\<open>!gradioEndpoint || gradioEndpoint.trim() === ''\<close>\<close>
  "endpoint_missing gradioEndpoint =
     (case gradioEndpoint of None \<Rightarrow> True | Some e \<Rightarrow> e = [] \<or> trim e = [])"

definition parse_reply ::
  "GenerationSettings \<Rightarrow> string \<Rightarrow> string option \<Rightarrow> nat \<Rightarrow> string \<Rightarrow> nat \<times> EveResponse" where
  \<comment> \<open>lines 380-416, from the reply text on\<close>
  "parse_reply genSettings message gradioEndpoint count replyText =
     (case choose_visual genSettings message replyText count of
        (vp, vt, count') \<Rightarrow>
          (let cleaned = strip_tags replyText;
               cancel = (vp \<noteq> None \<and> endpoint_missing gradioEndpoint)
           in (count',
               \<lparr>r_text = (if cancel
                          then cleaned @ [CHR 0x0A, CHR 0x0A]
                               @ ''(I tried to show you, but my visual cortex isn't connected!)''
                          else cleaned),
                r_image = None,
                visualPrompt = (if cancel then None else vp),
                visualType = Some vt,
                isError = None, errorMessage = None, errorType = None,
                enhancedPrompt = None\<rparr>)))"

section \<open>The backends and the module state (geminiService)\<close>

datatype Language = english | manglish

record Session =
  \<comment> \<open>a chat handle, known by what it was created with; the system instruction is fixed by
      the language (and the clock and the time away), the sampling and safety settings are
      handed over as they are. The turns the handle collects while it is used are its own.\<close>
  s_key :: string
  s_language :: Language
  s_history :: "Content list"

datatype MsgContent = PlainMessage string | PartsMessage "Part list"

datatype GradioItem = UrlObject string | StringItem string | OtherItem

text \<open>
  The calls that leave the program are parameters of the model. Each returns \<open>Inl\<close> of the
  raw error it throws, or \<open>Inr\<close> of what it returns.
\<close>

record Backends =
  env_API_KEY :: "string option"
    \<comment> \<open>\<^verbatim>\<open>process.env.API_KEY\<close>\<close>
  chat_create :: "Session \<Rightarrow> RawError option"
    \<comment> \<open>\<^verbatim>\<open>ai.chats.create\<close>: the error it throws, if any\<close>
  chat_send :: "Session \<Rightarrow> MsgContent \<Rightarrow> RawError + string option"
    \<comment> \<open>\<^verbatim>\<open>chatSession.sendMessage\<close>: \<^verbatim>\<open>result.text\<close>\<close>
  generate_image :: "string \<Rightarrow> Part list \<Rightarrow> RawError + Part list option"
    \<comment> \<open>\<^verbatim>\<open>generateContent\<close> on the image model, by key:
        \<^verbatim>\<open>response.candidates?.[0]?.content?.parts\<close>\<close>
  generate_text :: "string \<Rightarrow> VisualType \<Rightarrow> string \<Rightarrow> string \<Rightarrow> RawError + string option"
    \<comment> \<open>\<^verbatim>\<open>generateContent\<close> on the rephrasing instruction, by key, template, visual
        context and concept: \<^verbatim>\<open>response.text\<close>\<close>
  gradio_predict :: "string \<Rightarrow> string \<Rightarrow> RawError + GradioItem list option"
    \<comment> \<open>the Gradio client, by endpoint and prompt: \<^verbatim>\<open>result.data\<close>\<close>

record ServiceState =
  chatSession :: "Session option"
  currentLanguage :: Language
  currentApiKey :: "string option"
  textOnlyMessageCount :: nat

definition initial_state :: ServiceState where
  \<comment> \<open>lines 44-47\<close>
  "initial_state = \<lparr>chatSession = None, currentLanguage = english, currentApiKey = None,
                     textOnlyMessageCount = 4\<rparr>"

definition IMAGE_QUALITY_SUFFIX :: string where
  "IMAGE_QUALITY_SUFFIX = '', 8k, best quality, masterpiece''"

definition NEUTRAL_PORTRAIT :: string where
  "NEUTRAL_PORTRAIT = ''A photorealistic portrait of a beautiful Indian woman, neutral expression.''"

definition getApiKey :: "Backends \<Rightarrow> string option \<Rightarrow> string" where
  "getApiKey B providedKey =
     (let env = (case env_API_KEY B of None \<Rightarrow> [] | Some k \<Rightarrow> k)
      in case providedKey of
           None \<Rightarrow> env
         | Some k \<Rightarrow> if k \<noteq> [] \<and> length (trim k) > 0 then k else env)"

definition initializeChat ::
  "Backends \<Rightarrow> Message list \<Rightarrow> string option \<Rightarrow> Language \<Rightarrow> ServiceState
   \<Rightarrow> ServiceState \<times> RawError option" where
  \<comment> \<open>the state it leaves, and the error it throws when the second creation fails too\<close>
  "initializeChat B history apiKey language st =
     (let key = getApiKey B apiKey;
          st1 = st\<lparr>currentLanguage := language, currentApiKey := Some key\<rparr>;
          seeded = \<lparr>s_key = key, s_language = language,
                    s_history = formatHistoryForGemini history\<rparr>;
          bare = \<lparr>s_key = key, s_language = language, s_history = []\<rparr>
      in case chat_create B seeded of
           None \<Rightarrow> (st1\<lparr>chatSession := Some seeded\<rparr>, None)
         | Some e \<Rightarrow>
             (case chat_create B bare of
                None \<Rightarrow> (st1\<lparr>chatSession := Some bare\<rparr>, None)
              | Some e' \<Rightarrow> (st1, Some e')))"

definition startChatWithHistory ::
  "Backends \<Rightarrow> Message list \<Rightarrow> string option \<Rightarrow> Language \<Rightarrow> ServiceState \<Rightarrow> ServiceState" where
  \<comment> \<open>an async function nobody awaits: it runs at once, and what it throws is lost\<close>
  "startChatWithHistory B history apiKey language st =
     fst (initializeChat B history apiKey language st)"

definition strip_label :: "string \<Rightarrow> string" where
  \<comment> \<open>\<^verbatim>\<open>replace(/^(YOUR OUTPUT|YOUR SCENE|SCENE|OUTPUT):/gi, '')\<close>\<close>
  "strip_label s =
     (case find (\<lambda>l. toLowerCase (take (length l) s) = toLowerCase l)
             [''YOUR OUTPUT:'', ''YOUR SCENE:'', ''SCENE:'', ''OUTPUT:''] of
        Some l \<Rightarrow> drop (length l) s
      | None \<Rightarrow> s)"

fun remove_fences :: "string \<Rightarrow> string" where
  \<comment> \<open>\<^verbatim>\<open>replace(/```/g, '')\<close>\<close>
  "remove_fences (a # b # c # cs) =
     (if a = CHR 0x60 \<and> b = CHR 0x60 \<and> c = CHR 0x60 then remove_fences cs
      else a # remove_fences (b # c # cs))"
| "remove_fences cs = cs"

definition clean_rephrased :: "string option \<Rightarrow> string" where
  \<comment> \<open>lines 248-251\<close>
  "clean_rephrased response_text =
     (let result = map_option trim response_text;
          cleanResult = (case result of
                           None \<Rightarrow> []
                         | Some r \<Rightarrow>
                             if r \<noteq> []
                             then map (\<lambda>c. if c = CHR 0x0A then CHR '' '' else c) (strip_label r)
                             else []);
          cleanResult' = trim (remove_fences cleanResult)
      in if cleanResult' \<noteq> [] \<and> length cleanResult' > 5 then cleanResult' else NEUTRAL_PORTRAIT)"

definition rephrasePromptForGradio ::
  "Backends \<Rightarrow> string \<Rightarrow> string option \<Rightarrow> string \<Rightarrow> VisualType \<Rightarrow> string" where
  "rephrasePromptForGradio B userMessage apiKey previousVisualContext type =
     (let key = getApiKey B apiKey;
          context = (if previousVisualContext \<noteq> [] then previousVisualContext else ''None'')
      in case generate_text B key type context userMessage of
           Inr response_text \<Rightarrow> clean_rephrased response_text
         | Inl error \<Rightarrow> NEUTRAL_PORTRAIT)"

definition generateWithGradio :: "Backends \<Rightarrow> string \<Rightarrow> string option \<Rightarrow> RawError + string" where
  "generateWithGradio B prompt endpoint =
     (case endpoint of
        None \<Rightarrow> Inl (ErrorInstance ''Gradio endpoint not configured.'')
      | Some ep \<Rightarrow>
          if ep = [] \<or> trim ep = [] then Inl (ErrorInstance ''Gradio endpoint not configured.'')
          else (case gradio_predict B ep prompt of
                  Inl e \<Rightarrow> Inl (ErrorInstance (getErrorMessage e))
                | Inr result_data \<Rightarrow>
                    (case result_data of
                       Some (UrlObject url # items) \<Rightarrow>
                         if url \<noteq> [] then Inr url
                         else Inl (ErrorInstance ''No image URL returned.'')
                     | Some (StringItem item # items) \<Rightarrow> Inr item
                     | _ \<Rightarrow> Inl (ErrorInstance ''No image URL returned.''))))"


definition plain_response :: "string \<Rightarrow> EveResponse" where
  "plain_response t = \<lparr>r_text = t, r_image = None, visualPrompt = None, visualType = None,
                        isError = None, errorMessage = None, errorType = None,
                        enhancedPrompt = None\<rparr>"

fun image_response_loop :: "Part list \<Rightarrow> string option \<times> string \<Rightarrow> string option \<times> string" where
  \<comment> \<open>the loop of \<^verbatim>\<open>processImageResponse\<close> over the parts\<close>
  "image_response_loop [] acc = acc"
| "image_response_loop (InlineData mt d # ps) (img, txt) =
     image_response_loop ps
       (Some (''data:'' @ (if mt \<noteq> [] then mt else ''image/png'') @ '';base64,'' @ d), txt)"
| "image_response_loop (Text t # ps) (img, txt) = image_response_loop ps (img, txt @ t)"

definition processImageResponse :: "Part list option \<Rightarrow> string \<Rightarrow> EveResponse" where
  "processImageResponse response_parts fallbackText =
     (case image_response_loop (case response_parts of None \<Rightarrow> [] | Some ps \<Rightarrow> ps) (None, []) of
        (img, txt) \<Rightarrow>
          (plain_response (if txt \<noteq> [] then txt else fallbackText))\<lparr>r_image := img\<rparr>)"

definition catch_block :: "ServiceState \<Rightarrow> RawError \<Rightarrow> ServiceState \<times> EveResponse" where
  \<comment> \<open>lines 418-436\<close>
  "catch_block st error =
     (let errorMessageText = getErrorMessage error;
          lowerError = toLowerCase errorMessageText;
          st' = st\<lparr>chatSession := None, currentApiKey := None\<rparr>
      in case classify lowerError of
           (userMessage, ty) \<Rightarrow>
             (st', (plain_response userMessage)
                     \<lparr>isError := Some True, errorMessage := Some errorMessageText,
                      errorType := Some ty\<rparr>))"

definition attachment_parts :: "string \<Rightarrow> string option \<Rightarrow> Part list" where
  \<comment> \<open>lines 350-351 and the \<^verbatim>\<open>parts\<close> built from them\<close>
  "attachment_parts message attachmentBase64 =
     (let att = (case attachmentBase64 of None \<Rightarrow> [] | Some a \<Rightarrow> a);
          mimeType = (case data_url_mime att of
                        None \<Rightarrow> ''image/jpeg''
                      | Some t \<Rightarrow> if t \<noteq> [] then t else ''image/jpeg'');
          cleanBase64 = strip_data_prefix att
      in [InlineData mimeType cleanBase64, Text message])"

definition message_content :: "string \<Rightarrow> string option \<Rightarrow> MsgContent" where
  \<comment> \<open>lines 372-375\<close>
  "message_content message attachmentBase64 =
     (if truthy attachmentBase64 then PartsMessage (attachment_parts message attachmentBase64)
      else PlainMessage message)"

definition try_block ::
  "Backends \<Rightarrow> string \<Rightarrow> string option \<Rightarrow> bool \<Rightarrow> string option \<Rightarrow> string option
   \<Rightarrow> GenerationSettings \<Rightarrow> string \<Rightarrow> Language \<Rightarrow> ServiceState
   \<Rightarrow> ServiceState \<times> (RawError + EveResponse)" where
  \<comment> \<open>lines 353-416: the state on leaving the block, with the error thrown or the response\<close>
  "try_block B message attachmentBase64 forceImageGeneration apiKey gradioEndpoint genSettings
     previousVisualContext language st =
     (let key = getApiKey B apiKey
      in if truthy attachmentBase64 \<and> forceImageGeneration
         then (case generate_image B key (attachment_parts message attachmentBase64) of
                 Inl e \<Rightarrow> (st, Inl e)
               | Inr response \<Rightarrow>
                   (st\<lparr>textOnlyMessageCount := 0\<rparr>,
                    Inr (processImageResponse response ''I've evolved the visual.'')))
         else if \<not> truthy attachmentBase64 \<and> forceImageGeneration
         then (let enhancedPart =
                     rephrasePromptForGradio B message apiKey previousVisualContext selfie;
                   generationPrompt = enhancedPart @ IMAGE_QUALITY_SUFFIX
               in case generateWithGradio B generationPrompt gradioEndpoint of
                    Inl e \<Rightarrow> (st, Inl e)
                  | Inr imageUrl \<Rightarrow>
                      (st\<lparr>textOnlyMessageCount := 0\<rparr>,
                       Inr ((plain_response ''Here is what I visualized.'')
                              \<lparr>r_image := Some imageUrl, enhancedPrompt := Some enhancedPart\<rparr>)))
         else (case (if chatSession st = None
                     then initializeChat B [] apiKey language st
                     else (st, None)) of
                 (st1, Some e) \<Rightarrow> (st1, Inl e)
               | (st1, None) \<Rightarrow>
                   (case chatSession st1 of
                      None \<Rightarrow>
                        (st1, Inl (ErrorInstance
                           ''Cannot read properties of null (reading 'sendMessage')''))
                    | Some session \<Rightarrow>
                        (case chat_send B session (message_content message attachmentBase64) of
                           Inl e \<Rightarrow> (st1, Inl e)
                         | Inr result_text \<Rightarrow>
                             (let replyText = (case result_text of None \<Rightarrow> [] | Some t \<Rightarrow> t)
                              in case parse_reply genSettings message gradioEndpoint
                                        (textOnlyMessageCount st1) replyText of
                                   (count', response) \<Rightarrow>
                                     (st1\<lparr>textOnlyMessageCount := count'\<rparr>,
                                      Inr response))))))"

definition sendMessageToEve ::
  "Backends \<Rightarrow> string \<Rightarrow> Message list \<Rightarrow> string option \<Rightarrow> bool \<Rightarrow> string option
   \<Rightarrow> string option \<Rightarrow> GenerationSettings \<Rightarrow> string \<Rightarrow> Language \<Rightarrow> ServiceState
   \<Rightarrow> ServiceState \<times> EveResponse" where
  "sendMessageToEve B message history attachmentBase64 forceImageGeneration apiKey
     gradioEndpoint genSettings previousVisualContext language st =
     (let key = getApiKey B apiKey;
          st0 = (if chatSession st = None \<or> currentLanguage st \<noteq> language
                    \<or> currentApiKey st \<noteq> Some key
                 then startChatWithHistory B history apiKey language st
                 else st)
      in case try_block B message attachmentBase64 forceImageGeneration apiKey gradioEndpoint
                genSettings previousVisualContext language st0 of
           (st1, Inr response) \<Rightarrow> (st1, response)
         | (st1, Inl error) \<Rightarrow> catch_block st1 error)"

section \<open>The dispatch loop and the render completion (App)\<close>

record ApiKeyDef =
  k_id :: string
  label :: string
  key :: string

record AppState =
  messages :: "Message list"
  activeKeyId :: "string option"
  storedActiveKeyId :: "string option"
    \<comment> \<open>what \<^verbatim>\<open>saveActiveKeyId\<close> writes and \<^verbatim>\<open>loadActiveKeyId\<close> reads\<close>
  visualMemory :: string

record RenderRequest =
  \<comment> \<open>the detached \<^verbatim>\<open>generateVisualSelfie\<close> call with the message identifier it captures\<close>
  rq_messageId :: string
  rq_description :: string
  rq_apiKey :: "string option"
  rq_context :: string
  rq_type :: VisualType

record 's Dispatch =
  d_app :: AppState
  d_svc :: 's
  d_calls :: "string option list"
    \<comment> \<open>the key of every \<^verbatim>\<open>sendMessageToEve\<close> call made so far, in order\<close>

definition totalKeys :: "ApiKeyDef list \<Rightarrow> nat" where
  "totalKeys apiKeys = (if length apiKeys > 0 then length apiKeys else 1)"

fun findIndex :: "('a \<Rightarrow> bool) \<Rightarrow> 'a list \<Rightarrow> nat option" where
  \<comment> \<open>\<open>None\<close> is the \<^verbatim>\<open>-1\<close> of \<^verbatim>\<open>Array.prototype.findIndex\<close>\<close>
  "findIndex P [] = None"
| "findIndex P (x # xs) = (if P x then Some 0 else map_option Suc (findIndex P xs))"

definition model_message :: "string \<Rightarrow> string \<Rightarrow> Message" where
  "model_message ident txt =
     \<lparr>m_id = ident, m_role = Model, m_text = txt, m_image = None, m_isError = None,
      m_isImageLoading = None\<rparr>"

definition push_message :: "Message \<Rightarrow> 's Dispatch \<Rightarrow> 's Dispatch" where
  \<comment> \<open>\<^verbatim>\<open>setMessages(prev => [...prev, m])\<close>\<close>
  "push_message m d = d\<lparr>d_app := (d_app d)\<lparr>messages := messages (d_app d) @ [m]\<rparr>\<rparr>"

definition push_error :: "string \<Rightarrow> string \<Rightarrow> 's Dispatch \<Rightarrow> 's Dispatch" where
  "push_error now txt d = push_message ((model_message now txt)\<lparr>m_isError := Some True\<rparr>) d"

definition EXHAUSTED_AT_START :: string where
  "EXHAUSTED_AT_START = ''All available API keys have exceeded their quota.''"

definition EXHAUSTED_AFTER_LOOP :: string where
  "EXHAUSTED_AFTER_LOOP =
     ''All available API keys have exceeded their quota. Please add a new key or check your billing.''"

definition finish_attempt ::
  "ApiKeyDef list \<Rightarrow> string \<Rightarrow> string \<Rightarrow> EveResponse \<Rightarrow> 's Dispatch
   \<Rightarrow> 's Dispatch \<times> RenderRequest option" where
  \<comment> \<open>lines 269-294: a success, a non-quota error or a single-key quota error;
      \<open>memory\<close> is the \<^verbatim>\<open>visualMemory\<close> the closure holds\<close>
  "finish_attempt apiKeys now memory response d =
     (if isError response = Some True
      then (push_error now (r_text response) d, None)
      else (let messageId = now;
                d1 = push_message
                       ((model_message messageId (r_text response))
                          \<lparr>m_image := r_image response,
                           m_isImageLoading := Some (truthy (visualPrompt response))\<rparr>) d;
                d2 = (if truthy (enhancedPrompt response)
                      then d1\<lparr>d_app := (d_app d1)\<lparr>visualMemory := the (enhancedPrompt response)\<rparr>\<rparr>
                      else d1)
            in if truthy (visualPrompt response)
               then (let latestKeyId = storedActiveKeyId (d_app d2);
                         latestKeyDef = find (\<lambda>k. Some (k_id k) = latestKeyId) apiKeys
                     in (d2, Some \<lparr>rq_messageId = messageId,
                                   rq_description = the (visualPrompt response),
                                   rq_apiKey = map_option key latestKeyDef,
                                   rq_context = memory,
                                   rq_type = (case visualType response of
                                                None \<Rightarrow> scene | Some t \<Rightarrow> t)\<rparr>))
               else (d2, None)))"

function rotation_loop ::
  "('s \<Rightarrow> string option \<Rightarrow> 's \<times> EveResponse option) \<Rightarrow> ApiKeyDef list \<Rightarrow> string option
   \<Rightarrow> string \<Rightarrow> string \<Rightarrow> string option \<Rightarrow> nat \<Rightarrow> 's Dispatch
   \<Rightarrow> 's Dispatch \<times> RenderRequest option" where
  \<comment> \<open>the \<^verbatim>\<open>while\<close> loop of \<^verbatim>\<open>processMessageSending\<close> and what follows it. \<open>send\<close> is one
      \<^verbatim>\<open>sendMessageToEve\<close> call with the given key on the service state; it returns \<open>None\<close>
      when the call throws. \<open>now\<close> is \<^verbatim>\<open>Date.now().toString()\<close> where the one message of
      this run is appended.\<close>
  "rotation_loop send apiKeys initialKeyId now memory keyIdToTry attempts d =
     (if attempts < totalKeys apiKeys
      then (let activeKeyDef = find (\<lambda>k. Some (k_id k) = keyIdToTry) apiKeys;
                apiKeyToUse = map_option key activeKeyDef
            in case send (d_svc d) apiKeyToUse of
                 (svc', outcome) \<Rightarrow>
                   (let d1 = d\<lparr>d_svc := svc', d_calls := d_calls d @ [apiKeyToUse]\<rparr>
                    in case outcome of
                         None \<Rightarrow> (push_error now ''Signal lost.'' d1, None)
                       | Some response \<Rightarrow>
                           if isError response = Some True
                              \<and> errorType response = Some QUOTA_EXCEEDED
                              \<and> length apiKeys > 1
                           then (let currentIndex =
                                       findIndex (\<lambda>k. Some (k_id k) = keyIdToTry) apiKeys;
                                     nextIndex = (case currentIndex of
                                                    Some i \<Rightarrow> i + 1
                                                  | None \<Rightarrow> 0) mod length apiKeys;
                                     nextKey = apiKeys ! nextIndex
                                 in if Some (k_id nextKey) = initialKeyId \<and> attempts > 0
                                    then (push_error now EXHAUSTED_AT_START d1, None)
                                    else rotation_loop send apiKeys initialKeyId now memory
                                           (Some (k_id nextKey)) (attempts + 1)
                                           (d1\<lparr>d_app := (d_app d1)
                                                 \<lparr>activeKeyId := Some (k_id nextKey),
                                                  storedActiveKeyId := Some (k_id nextKey)\<rparr>\<rparr>))
                           else finish_attempt apiKeys now memory response d1))
      else (push_error now EXHAUSTED_AFTER_LOOP d, None))"
  by pat_completeness auto
termination
  by (relation "measure (\<lambda>(send, apiKeys, initialKeyId, now, memory, keyIdToTry, attempts, d).
                           totalKeys apiKeys - attempts)") auto

declare rotation_loop.simps [simp del]

definition processMessageSending ::
  "('s \<Rightarrow> string option \<Rightarrow> 's \<times> EveResponse option) \<Rightarrow> ApiKeyDef list \<Rightarrow> string option
   \<Rightarrow> string \<Rightarrow> AppState \<Rightarrow> 's \<Rightarrow> 's Dispatch \<times> RenderRequest option" where
  "processMessageSending send apiKeys initialKeyId now app svc =
     rotation_loop send apiKeys initialKeyId now (visualMemory app) initialKeyId 0
       \<lparr>d_app = app, d_svc = svc, d_calls = []\<rparr>"

definition service_send ::
  "Backends \<Rightarrow> string \<Rightarrow> Message list \<Rightarrow> string option \<Rightarrow> bool \<Rightarrow> string option
   \<Rightarrow> GenerationSettings \<Rightarrow> string \<Rightarrow> Language
   \<Rightarrow> ServiceState \<Rightarrow> string option \<Rightarrow> ServiceState \<times> EveResponse option" where
  \<comment> \<open>the call of lines 243-246, as the \<open>send\<close> of the loop\<close>
  "service_send B message historySnapshot currentAttachment isImageEvolutionMode gradioEndpoint
     genSettings memory language svc apiKeyToUse =
     (case sendMessageToEve B message historySnapshot currentAttachment isImageEvolutionMode
             apiKeyToUse gradioEndpoint genSettings memory language svc of
        (svc', response) \<Rightarrow> (svc', Some response))"

datatype RenderOutcome =
    Rejected
  | Resolved "(string \<times> string) option"
      \<comment> \<open>\<^verbatim>\<open>{imageUrl, enhancedPrompt}\<close>, or \<^verbatim>\<open>undefined\<close>\<close>

definition clear_loading :: "string \<Rightarrow> Message list \<Rightarrow> Message list" where
  \<comment> \<open>\<^verbatim>\<open>prev.map(m => m.id === messageId ? { ...m, isImageLoading: false } : m)\<close>\<close>
  "clear_loading messageId prev =
     map (\<lambda>m. if m_id m = messageId then m\<lparr>m_isImageLoading := Some False\<rparr> else m) prev"

definition attach_image :: "string \<Rightarrow> string \<Rightarrow> Message list \<Rightarrow> Message list" where
  \<comment> \<open>\<^verbatim>\<open>prev.map(m => m.id === messageId ? { ...m, image: url, isImageLoading: false } : m)\<close>\<close>
  "attach_image messageId imageUrl prev =
     map (\<lambda>m. if m_id m = messageId
               then m\<lparr>m_image := Some imageUrl, m_isImageLoading := Some False\<rparr> else m) prev"

definition on_render_complete :: "string \<Rightarrow> RenderOutcome \<Rightarrow> AppState \<Rightarrow> AppState" where
  \<comment> \<open>lines 284-291: the \<^verbatim>\<open>then\<close> and \<^verbatim>\<open>catch\<close> handlers of the detached render\<close>
  "on_render_complete messageId outcome app =
     (case outcome of
        Resolved (Some (imageUrl, enhanced)) \<Rightarrow>
          if imageUrl \<noteq> []
          then app\<lparr>messages := attach_image messageId imageUrl (messages app),
                   visualMemory := (if enhanced \<noteq> [] then enhanced else visualMemory app)\<rparr>
          else app\<lparr>messages := clear_loading messageId (messages app)\<rparr>
      | Resolved None \<Rightarrow> app\<lparr>messages := clear_loading messageId (messages app)\<rparr>
      | Rejected \<Rightarrow> app\<lparr>messages := clear_loading messageId (messages app)\<rparr>)"

section \<open>Notions the properties are stated with\<close>

fun begins_with_model :: "Content list \<Rightarrow> bool" where
  "begins_with_model [] = False"
| "begins_with_model (c # cs) = (role c = Model)"

definition spec_contribution :: "Message \<Rightarrow> Content list" where
  \<comment> \<open>the turn one message contributes: none for an error-flagged message and for a user
      message without parts\<close>
  "spec_contribution h =
     (if m_isError h = Some True then []
      else if m_role h = User
      then (if user_parts h = [] then [] else [\<lparr>role = User, parts = user_parts h\<rparr>])
      else [\<lparr>role = Model, parts = [Text (if m_text h \<noteq> [] then m_text h else ''...'')]\<rparr>])"

definition spec_merge_run :: "Content list \<Rightarrow> Content" where
  \<comment> \<open>one turn for a run: its role, and the parts of its turns in order\<close>
  "spec_merge_run r = \<lparr>role = role (hd r), parts = concat (map parts r)\<rparr>"

definition maximal_runs :: "Content list list \<Rightarrow> bool" where
  \<comment> \<open>non-empty runs of one role each, neighbouring runs of different roles\<close>
  "maximal_runs rs =
     (list_all (\<lambda>r. r \<noteq> [] \<and> list_all (\<lambda>c. role c = role (hd r)) r) rs
      \<and> distinct_adj (map (\<lambda>r. role (hd r)) rs))"

fun spec_runs :: "Content list \<Rightarrow> Content list list" where
  \<comment> \<open>the turns cut into maximal runs of one role\<close>
  "spec_runs [] = []"
| "spec_runs (c # cs) =
     (case spec_runs cs of
        [] \<Rightarrow> [[c]]
      | r # rs \<Rightarrow> if role (hd r) = role c then (c # r) # rs else [c] # r # rs)"

definition user_message :: "string \<Rightarrow> string option \<Rightarrow> Message" where
  "user_message txt img =
     \<lparr>m_id = ''1'', m_role = User, m_text = txt, m_image = img, m_isError = None,
      m_isImageLoading = None\<rparr>"

definition spec_contains_ci :: "string \<Rightarrow> string \<Rightarrow> bool" where
  \<comment> \<open>\<open>p\<close> occurs in \<open>s\<close> when upper and lower case are not told apart\<close>
  "spec_contains_ci s p =
     list_ex (\<lambda>i. toLowerCase (take (length p) (drop i s)) = toLowerCase p) [0..<Suc (length s)]"

definition two_messages :: AppState where
  "two_messages =
     \<lparr>messages = [user_message ''draw the sea'' None,
                  (model_message ''42'' ''Here it comes'')\<lparr>m_isImageLoading := Some True\<rparr>],
      activeKeyId = None, storedActiveKeyId = None, visualMemory = ''''\<rparr>"

definition rotating_backends :: Backends where
  \<comment> \<open>backends whose chat refuses the first key for quota and answers on any other\<close>
  "rotating_backends =
     \<lparr>env_API_KEY = None,
      chat_create = (\<lambda>s. None),
      chat_send = (\<lambda>s m. if s_key s = ''key-1'' then Inl (ErrorInstance ''429 Too Many Requests'')
                           else Inr (Some ''Hello!'')),
      generate_image = (\<lambda>k ps. Inr None),
      generate_text = (\<lambda>k t c m. Inl (StringValue ''rephrasing is down'')),
      gradio_predict = (\<lambda>ep p. Inr (Some [UrlObject ''http://img/1'']))\<rparr>"

definition first_send :: "ServiceState \<times> EveResponse" where
  "first_send = sendMessageToEve rotating_backends ''hi'' [] None False (Some ''key-1'') None
                  \<lparr>aiImageGeneration = True\<rparr> '''' english initial_state"

definition second_send :: "ServiceState \<times> EveResponse" where
  "second_send = sendMessageToEve rotating_backends ''hi'' [] None False (Some ''key-2'') None
                   \<lparr>aiImageGeneration = True\<rparr> '''' english (fst first_send)"








definition quota_failure :: "'s \<times> EveResponse option \<Rightarrow> bool" where
  \<comment> \<open>the send returned an error response of type \<open>QUOTA_EXCEEDED\<close>\<close>
  "quota_failure out =
     (case snd out of
        None \<Rightarrow> False
      | Some r \<Rightarrow> isError r = Some True \<and> errorType r = Some QUOTA_EXCEEDED)"

definition other_failure :: "'s \<times> EveResponse option \<Rightarrow> bool" where
  \<comment> \<open>the send returned an error response of type \<open>GENERAL\<close> or \<open>AUTH_ERROR\<close>\<close>
  "other_failure out =
     (case snd out of
        None \<Rightarrow> False
      | Some r \<Rightarrow> isError r = Some True
                  \<and> (errorType r = Some GENERAL \<or> errorType r = Some AUTH_ERROR))"

definition is_exhaustion :: "Message \<Rightarrow> bool" where
  \<comment> \<open>one of the two messages that report that every key is out of quota\<close>
  "is_exhaustion m =
     (m_isError m = Some True \<and> m_role m = Model
      \<and> (m_text m = EXHAUSTED_AT_START \<or> m_text m = EXHAUSTED_AFTER_LOOP))"

definition first_key :: "ApiKeyDef list \<Rightarrow> string option \<Rightarrow> string option" where
  \<comment> \<open>the key of the first attempt: that of the credential with the initial identifier\<close>
  "first_key apiKeys initialKeyId =
     map_option key (find (\<lambda>k. Some (k_id k) = initialKeyId) apiKeys)"

definition quota_response :: EveResponse where
  "quota_response =
     (plain_response ''I've hit my usage limit for now (Quota Exceeded).'')
       \<lparr>isError := Some True, errorMessage := Some ''429 Too Many Requests'',
        errorType := Some QUOTA_EXCEEDED\<rparr>"

definition auth_response :: EveResponse where
  "auth_response =
     (plain_response ''API key invalid.'')
       \<lparr>isError := Some True, errorMessage := Some ''403 Forbidden'',
        errorType := Some AUTH_ERROR\<rparr>"

definition always :: "EveResponse \<Rightarrow> unit \<Rightarrow> string option \<Rightarrow> unit \<times> EveResponse option" where
  \<comment> \<open>a send that answers every attempt with the same response\<close>
  "always response svc k = (svc, Some response)"

definition credential :: "string \<Rightarrow> ApiKeyDef" where
  "credential n = \<lparr>k_id = n, label = ''key '' @ n, key = ''key-'' @ n\<rparr>"

definition empty_app :: AppState where
  "empty_app = \<lparr>messages = [], activeKeyId = Some ''1'', storedActiveKeyId = Some ''1'',
                 visualMemory = ''''\<rparr>"














section \<open>Properties of the history normalisation\<close>

lemma role_not_Model: "(r \<noteq> Model) = (r = User)"
  by (cases r) simp_all

lemma merge_loop_alternates:
  "distinct_adj (map role (merged @ [current])) \<Longrightarrow>
   distinct_adj (map role (merge_loop current vs merged))"
proof (induction vs arbitrary: current merged)
  case Nil
  then show ?case by simp
next
  case (Cons v vs)
  show ?case
  proof (cases "role v = role current")
    case True
    have "distinct_adj (map role (merged @ [current\<lparr>parts := parts current @ parts v\<rparr>]))"
      using Cons.prems by simp
    from Cons.IH [OF this] True show ?thesis by simp
  next
    case False
    have "distinct_adj (map role ((merged @ [current]) @ [v]))"
      using Cons.prems False by (simp add: distinct_adj_append_iff)
    from Cons.IH [OF this] False show ?thesis by simp
  qed
qed

lemma merge_turns_alternates: "distinct_adj (map role (merge_turns vh))"
  by (cases vh) (simp_all add: merge_turns_def merge_loop_alternates)

lemma shift_models_alternates:
  "distinct_adj (map role cs) \<Longrightarrow> distinct_adj (map role (shift_models cs))"
  by (induction cs) (auto dest: distinct_adj_ConsD)

lemma shift_models_head: "\<not> begins_with_model (shift_models cs)"
  by (induction cs) auto

lemma push_placeholder_alternates:
  "distinct_adj (map role cs) \<Longrightarrow> distinct_adj (map role (push_placeholder cs))"
  by (cases cs rule: rev_cases)
     (auto simp: push_placeholder_def distinct_adj_append_iff role_not_Model)

lemma push_placeholder_head:
  "begins_with_model (push_placeholder cs) = begins_with_model cs"
  by (cases cs) (auto simp: push_placeholder_def)

text \<open>
  Claim C2. For every list of messages, the turns \<^verbatim>\<open>formatHistoryForGemini\<close> returns do not
  begin with a model turn, and no two neighbouring turns have the same role.
\<close>

theorem normalize_alternates:
  "\<not> begins_with_model (formatHistoryForGemini history)
   \<and> distinct_adj (map role (formatHistoryForGemini history))"
  unfolding formatHistoryForGemini_def finish_history_def
  by (simp add: push_placeholder_head shift_models_head push_placeholder_alternates
      shift_models_alternates merge_turns_alternates)

theorem normalize_alternates_witness:
  "\<not> begins_with_model (formatHistoryForGemini [model_message ''0'' ''welcome'',
       user_message ''hi'' None, user_message ''there'' None])
   \<and> distinct_adj (map role (formatHistoryForGemini [model_message ''0'' ''welcome'',
       user_message ''hi'' None, user_message ''there'' None]))"
  using normalize_alternates
    [of "[model_message ''0'' ''welcome'', user_message ''hi'' None, user_message ''there'' None]"]
  by simp

lemma collect_valid_contributions:
  "collect_valid hs vh = vh @ concat (map spec_contribution hs)"
  by (induction hs arbitrary: vh) (simp_all add: spec_contribution_def Let_def)

lemma merge_loop_absorb:
  "list_all (\<lambda>c. role c = role current) r \<Longrightarrow>
   merge_loop current (r @ rest) merged =
   merge_loop (current\<lparr>parts := parts current @ concat (map parts r)\<rparr>) rest merged"
  by (induction r arbitrary: current) simp_all

lemma merge_loop_runs:
  "maximal_runs rs \<Longrightarrow> list_all (\<lambda>c. role c = role current) r \<Longrightarrow>
   (rs \<noteq> [] \<Longrightarrow> role (hd (hd rs)) \<noteq> role current) \<Longrightarrow>
   merge_loop current (r @ concat rs) merged =
   merged @ [current\<lparr>parts := parts current @ concat (map parts r)\<rparr>] @ map spec_merge_run rs"
proof (induction rs arbitrary: current r merged)
  case Nil
  then show ?case using merge_loop_absorb [of current r "[]" merged] by simp
next
  case (Cons r1 rs)
  from Cons.prems(1) obtain v r1' where r1: "r1 = v # r1'"
    by (cases r1) (auto simp: maximal_runs_def)
  from Cons.prems(1) r1 have same: "list_all (\<lambda>c. role c = role v) r1'"
    by (simp add: maximal_runs_def)
  from Cons.prems(1) have mr: "maximal_runs rs"
    by (cases rs) (auto simp: maximal_runs_def)
  from Cons.prems(1) r1 have nxt: "rs \<noteq> [] \<Longrightarrow> role (hd (hd rs)) \<noteq> role v"
    by (cases rs) (auto simp: maximal_runs_def)
  from Cons.prems(3) r1 have diff: "role v \<noteq> role current" by simp
  let ?cur = "current\<lparr>parts := parts current @ concat (map parts r)\<rparr>"
  have "merge_loop current (r @ concat (r1 # rs)) merged
        = merge_loop ?cur (v # r1' @ concat rs) merged"
    using merge_loop_absorb [OF Cons.prems(2), of "concat (r1 # rs)" merged] r1 by simp
  also have "\<dots> = merge_loop v (r1' @ concat rs) (merged @ [?cur])"
    using diff by simp
  also have "\<dots> = (merged @ [?cur]) @ [v\<lparr>parts := parts v @ concat (map parts r1')\<rparr>]
                    @ map spec_merge_run rs"
    by (rule Cons.IH [OF mr same nxt])
  also have "v\<lparr>parts := parts v @ concat (map parts r1')\<rparr> = spec_merge_run r1"
    by (simp add: spec_merge_run_def r1)
  finally show ?case by simp
qed

lemma merge_turns_runs:
  assumes "maximal_runs rs"
  shows "merge_turns (concat rs) = map spec_merge_run rs"
proof (cases rs)
  case Nil
  then show ?thesis by (simp add: merge_turns_def)
next
  case (Cons r1 rs')
  from assms Cons obtain v r1' where r1: "r1 = v # r1'"
    by (cases r1) (auto simp: maximal_runs_def)
  from assms Cons r1 have same: "list_all (\<lambda>c. role c = role v) r1'"
    by (simp add: maximal_runs_def)
  from assms Cons have mr: "maximal_runs rs'"
    by (cases rs') (auto simp: maximal_runs_def)
  from assms Cons r1 have nxt: "rs' \<noteq> [] \<Longrightarrow> role (hd (hd rs')) \<noteq> role v"
    by (cases rs') (auto simp: maximal_runs_def)
  have "merge_turns (concat rs) = merge_loop v (r1' @ concat rs') []"
    by (simp add: merge_turns_def Cons r1)
  also have "\<dots> = [] @ [v\<lparr>parts := parts v @ concat (map parts r1')\<rparr>] @ map spec_merge_run rs'"
    by (rule merge_loop_runs [OF mr same nxt])
  also have "v\<lparr>parts := parts v @ concat (map parts r1')\<rparr> = spec_merge_run r1"
    by (simp add: spec_merge_run_def r1)
  finally show ?thesis by (simp add: Cons)
qed

lemma normalize_example:
  "formatHistoryForGemini
     [user_message ''hi'' None, user_message ''there'' None, model_message ''2'' ''hello'']
   = [\<lparr>role = User, parts = [Text ''hi'', Text ''there'']\<rparr>,
      \<lparr>role = Model, parts = [Text ''hello'']\<rparr>]"
  by (simp add: formatHistoryForGemini_def finish_history_def push_placeholder_def
      merge_turns_def user_message_def model_message_def user_parts_def image_parts_def)

lemma concat_spec_runs: "concat (spec_runs cs) = cs"
  by (induction cs) (auto split: list.splits)

lemma maximal_runs_Cons:
  "maximal_runs (r # rs) =
     (r \<noteq> [] \<and> list_all (\<lambda>c. role c = role (hd r)) r \<and> maximal_runs rs
      \<and> (rs \<noteq> [] \<longrightarrow> role (hd r) \<noteq> role (hd (hd rs))))"
  by (cases rs) (auto simp: maximal_runs_def)

lemma maximal_runs_spec_runs: "maximal_runs (spec_runs cs)"
proof (induction cs)
  case Nil
  show ?case by (simp add: maximal_runs_def)
next
  case (Cons c cs)
  show ?case
  proof (cases "spec_runs cs")
    case Nil
    then show ?thesis by (simp add: maximal_runs_def)
  next
    case (Cons r rs)
    with Cons.IH have ih: "maximal_runs (r # rs)" by simp
    then have parts: "r \<noteq> []" "list_all (\<lambda>x. role x = role (hd r)) r" "maximal_runs rs"
      "rs \<noteq> [] \<longrightarrow> role (hd r) \<noteq> role (hd (hd rs))"
      unfolding maximal_runs_Cons by blast+
    show ?thesis
    proof (cases "role (hd r) = role c")
      case True
      then have eq: "spec_runs (c # cs) = (c # r) # rs"
        using Cons by simp
      have "list_all (\<lambda>x. role x = role c) r"
        using parts(2) by (simp only: True)
      then have "list_all (\<lambda>x. role x = role (hd (c # r))) (c # r)"
        by simp
      moreover have "rs \<noteq> [] \<longrightarrow> role (hd (c # r)) \<noteq> role (hd (hd rs))"
        using parts(4) by (simp add: True [symmetric])
      ultimately have "maximal_runs ((c # r) # rs)"
        using parts(3) by (simp only: maximal_runs_Cons) simp
      with eq show ?thesis by simp
    next
      case False
      then have eq: "spec_runs (c # cs) = [c] # r # rs"
        using Cons by simp
      have "maximal_runs ([c] # r # rs)"
        using ih False by (subst maximal_runs_Cons) auto
      with eq show ?thesis by simp
    qed
  qed
qed

text \<open>
  Claim C5. Take the turns the messages contribute (error-flagged messages and user messages
  without parts contribute none). They can be cut into maximal runs of one role, and however
  they are cut so, the merge step of \<^verbatim>\<open>formatHistoryForGemini\<close> makes exactly one turn of
  each run, with the parts of the run in their order; the result of the function is these
  turns after its closing steps (leading model turns removed, a placeholder appended after
  a final user turn). The messages user "hi", user "there", assistant "hello" give one user
  turn with the parts "hi" and "there" and one model turn with "hello".
\<close>

theorem normalize_merges_runs:
  "maximal_runs (spec_runs (concat (map spec_contribution history)))
   \<and> concat (spec_runs (concat (map spec_contribution history)))
       = concat (map spec_contribution history)
   \<and> (maximal_runs rs \<and> concat rs = concat (map spec_contribution history)
      \<longrightarrow> merge_turns (collect_valid history []) = map spec_merge_run rs
          \<and> formatHistoryForGemini history = finish_history (map spec_merge_run rs))
   \<and> formatHistoryForGemini
        [user_message ''hi'' None, user_message ''there'' None, model_message ''2'' ''hello'']
      = [\<lparr>role = User, parts = [Text ''hi'', Text ''there'']\<rparr>,
         \<lparr>role = Model, parts = [Text ''hello'']\<rparr>]"
proof (intro conjI impI)
  show "maximal_runs (spec_runs (concat (map spec_contribution history)))"
    by (rule maximal_runs_spec_runs)
  show "concat (spec_runs (concat (map spec_contribution history)))
        = concat (map spec_contribution history)"
    by (rule concat_spec_runs)
  show "formatHistoryForGemini
        [user_message ''hi'' None, user_message ''there'' None, model_message ''2'' ''hello'']
      = [\<lparr>role = User, parts = [Text ''hi'', Text ''there'']\<rparr>,
         \<lparr>role = Model, parts = [Text ''hello'']\<rparr>]"
    by (rule normalize_example)
next
  assume runs: "maximal_runs rs \<and> concat rs = concat (map spec_contribution history)"
  then have "collect_valid history [] = concat rs"
    by (simp add: collect_valid_contributions)
  then show merged: "merge_turns (collect_valid history []) = map spec_merge_run rs"
    using merge_turns_runs [of rs] runs by simp
  then show "formatHistoryForGemini history = finish_history (map spec_merge_run rs)"
    by (simp add: formatHistoryForGemini_def)
qed

theorem normalize_merges_runs_witness:
  "maximal_runs [[\<lparr>role = User, parts = [Text ''hi'']\<rparr>, \<lparr>role = User, parts = [Text ''there'']\<rparr>],
                 [\<lparr>role = Model, parts = [Text ''hello'']\<rparr>]]
   \<and> concat [[\<lparr>role = User, parts = [Text ''hi'']\<rparr>, \<lparr>role = User, parts = [Text ''there'']\<rparr>],
               [\<lparr>role = Model, parts = [Text ''hello'']\<rparr>]]
     = concat (map spec_contribution
        [user_message ''hi'' None, user_message ''there'' None, model_message ''2'' ''hello''])
   \<and> merge_turns (collect_valid
        [user_message ''hi'' None, user_message ''there'' None, model_message ''2'' ''hello''] [])
     = [\<lparr>role = User, parts = [Text ''hi'', Text ''there'']\<rparr>,
        \<lparr>role = Model, parts = [Text ''hello'']\<rparr>]"
proof -
  let ?rs = "[[\<lparr>role = User, parts = [Text ''hi'']\<rparr>, \<lparr>role = User, parts = [Text ''there'']\<rparr>],
              [\<lparr>role = Model, parts = [Text ''hello'']\<rparr>]]"
  let ?h = "[user_message ''hi'' None, user_message ''there'' None, model_message ''2'' ''hello'']"
  have runs: "maximal_runs ?rs"
    by (simp add: maximal_runs_def)
  have contrib: "concat ?rs = concat (map spec_contribution ?h)"
    by (simp add: spec_contribution_def user_message_def model_message_def user_parts_def
        image_parts_def)
  from normalize_merges_runs [of ?h ?rs] runs contrib
  have "merge_turns (collect_valid ?h []) = map spec_merge_run ?rs"
    by blast
  with runs contrib show ?thesis
    by (simp add: spec_merge_run_def)
qed

text \<open>
  Claim C8, at a failing input. A user message carries the attachment
  \<^verbatim>\<open>data:image/svg+xml;base64,PHN2Zy8+\<close>. The mime type is read by \<^verbatim>\<open>/^data:(.*);base64,/\<close>,
  which takes any type, but the prefix is removed by \<^verbatim>\<open>/^data:image\/\w+;base64,/\<close>, which
  stops at the \<^verbatim>\<open>+\<close>: the part is emitted with the right mime type and, as its data, the
  whole encoded string instead of the payload \<^verbatim>\<open>PHN2Zy8+\<close>.
\<close>

theorem attachment_payload_not_stripped:
  "formatHistoryForGemini [user_message '''' (Some ''data:image/svg+xml;base64,PHN2Zy8+'')]
   = [\<lparr>role = User,
       parts = [InlineData ''image/svg+xml'' ''data:image/svg+xml;base64,PHN2Zy8+'']\<rparr>]"
  by (simp add: formatHistoryForGemini_def finish_history_def push_placeholder_def
      merge_turns_def user_message_def user_parts_def image_parts_def data_url_mime_def
      strip_data_prefix_def startsWith_def is_line_terminator_def is_word_char_def)

section \<open>Properties of the error classification\<close>

lemmas lower_eval = toLowerCase_def lower_char_def char_of_def bit_Suc_0_iff

lemma str_includes_iff:
  "str_includes s p = (\<exists>i\<le>length s. take (length p) (drop i s) = p)"
proof (induction s)
  case Nil
  then show ?case by auto
next
  case (Cons c cs)
  have "(\<exists>i\<le>length (c # cs). take (length p) (drop i (c # cs)) = p)
        = (take (length p) (c # cs) = p \<or> (\<exists>j\<le>length cs. take (length p) (drop j cs) = p))"
  proof
    assume "\<exists>i\<le>length (c # cs). take (length p) (drop i (c # cs)) = p"
    then obtain i where i: "i \<le> length (c # cs)" "take (length p) (drop i (c # cs)) = p"
      by blast
    show "take (length p) (c # cs) = p \<or> (\<exists>j\<le>length cs. take (length p) (drop j cs) = p)"
    proof (cases i)
      case 0
      with i show ?thesis by simp
    next
      case (Suc j)
      with i have "j \<le> length cs \<and> take (length p) (drop j cs) = p" by simp
      then show ?thesis by blast
    qed
  next
    assume "take (length p) (c # cs) = p \<or> (\<exists>j\<le>length cs. take (length p) (drop j cs) = p)"
    then show "\<exists>i\<le>length (c # cs). take (length p) (drop i (c # cs)) = p"
    proof
      assume "take (length p) (c # cs) = p"
      then have "0 \<le> length (c # cs) \<and> take (length p) (drop 0 (c # cs)) = p" by simp
      then show ?thesis by blast
    next
      assume "\<exists>j\<le>length cs. take (length p) (drop j cs) = p"
      then obtain j where "j \<le> length cs" "take (length p) (drop j cs) = p" by blast
      then have "Suc j \<le> length (c # cs) \<and> take (length p) (drop (Suc j) (c # cs)) = p"
        by simp
      then show ?thesis by blast
    qed
  qed
  with Cons show ?case by (simp add: startsWith_def)
qed

lemma includes_lower_iff:
  assumes "toLowerCase p = p"
  shows "str_includes (toLowerCase s) p = spec_contains_ci s p"
proof -
  have "str_includes (toLowerCase s) p
        = (\<exists>i\<le>length s. toLowerCase (take (length p) (drop i s)) = p)"
    by (simp add: str_includes_iff toLowerCase_def take_map drop_map)
  also have "\<dots> = spec_contains_ci s p"
    unfolding spec_contains_ci_def list_ex_iff using assms
    by (auto simp del: upt_Suc simp: less_Suc_eq_le)
  finally show ?thesis .
qed

lemma lower_patterns:
  "toLowerCase ''429'' = ''429''" "toLowerCase ''exhausted'' = ''exhausted''"
  "toLowerCase ''quota'' = ''quota''" "toLowerCase ''403'' = ''403''"
  "toLowerCase ''key'' = ''key''"
  by (simp_all add: toLowerCase_def lower_char_def)

text \<open>
  Claim C4. For every raw error, the error type of the response built in the \<^verbatim>\<open>catch\<close> block
  of \<^verbatim>\<open>sendMessageToEve\<close> is \<open>QUOTA_EXCEEDED\<close> exactly when the extracted message contains
  "429", "exhausted" or "quota" without regard to case; otherwise it is \<open>AUTH_ERROR\<close> exactly
  when the message contains "403" or "key"; otherwise it is \<open>GENERAL\<close>. A message that
  matches both groups is a quota error.
\<close>

theorem classification_rule:
  "errorType (snd (catch_block st e)) =
     Some (if spec_contains_ci (getErrorMessage e) ''429''
              \<or> spec_contains_ci (getErrorMessage e) ''exhausted''
              \<or> spec_contains_ci (getErrorMessage e) ''quota''
           then QUOTA_EXCEEDED
           else if spec_contains_ci (getErrorMessage e) ''403''
                   \<or> spec_contains_ci (getErrorMessage e) ''key''
           then AUTH_ERROR
           else GENERAL)
   \<and> errorMessage (snd (catch_block st e)) = Some (getErrorMessage e)
   \<and> isError (snd (catch_block st e)) = Some True"
  by (simp add: catch_block_def classify_def Let_def includes_lower_iff lower_patterns
      plain_response_def)

theorem classification_rule_witness:
  "errorType (snd (catch_block initial_state (ErrorInstance ''Got 403 after QUOTA check'')))
   = Some QUOTA_EXCEEDED"
  using classification_rule [of initial_state "ErrorInstance ''Got 403 after QUOTA check''"]
  by (simp add: spec_contains_ci_def lower_eval)

section \<open>Properties of the render completion\<close>

lemma clear_loading_absent:
  "messageId \<notin> m_id ` set prev \<Longrightarrow> clear_loading messageId prev = prev"
  by (induction prev) (auto simp: clear_loading_def)

lemma attach_image_absent:
  "messageId \<notin> m_id ` set prev \<Longrightarrow> attach_image messageId url prev = prev"
  by (induction prev) (auto simp: attach_image_def)

text \<open>
  Claim C9. When the detached render completes, with an image, without one or with a failure,
  the handler keeps the length and the order of the message list; a message whose identifier
  is the captured one changes in its image and image-loading fields only (the loading flag
  becomes false), every other message stays as it is; and when no message has the captured
  identifier the list is unchanged.
\<close>

theorem render_completion_frame:
  "length (messages (on_render_complete messageId outcome app)) = length (messages app)
   \<and> (\<forall>i<length (messages app).
        messages (on_render_complete messageId outcome app) ! i =
          (if m_id (messages app ! i) = messageId
           then (messages app ! i)
                  \<lparr>m_image := m_image (messages (on_render_complete messageId outcome app) ! i),
                   m_isImageLoading := Some False\<rparr>
           else messages app ! i))
   \<and> (messageId \<notin> m_id ` set (messages app)
        \<longrightarrow> messages (on_render_complete messageId outcome app) = messages app)"
proof -
  have len: "length (messages (on_render_complete messageId outcome app)) = length (messages app)"
    by (simp add: on_render_complete_def attach_image_def clear_loading_def
        split: RenderOutcome.splits option.splits prod.splits)
  have frame: "\<forall>i<length (messages app).
        messages (on_render_complete messageId outcome app) ! i =
          (if m_id (messages app ! i) = messageId
           then (messages app ! i)
                  \<lparr>m_image := m_image (messages (on_render_complete messageId outcome app) ! i),
                   m_isImageLoading := Some False\<rparr>
           else messages app ! i)"
    by (simp add: on_render_complete_def attach_image_def clear_loading_def
        split: RenderOutcome.splits option.splits prod.splits)
  have absent: "messageId \<notin> m_id ` set (messages app)
        \<longrightarrow> messages (on_render_complete messageId outcome app) = messages app"
    by (simp add: on_render_complete_def attach_image_absent clear_loading_absent
        split: RenderOutcome.splits option.splits prod.splits)
  from len frame absent show ?thesis by blast
qed

theorem render_completion_frame_witness:
  "(1::nat) < length (messages two_messages)
   \<and> m_text (messages (on_render_complete ''42'' (Resolved (Some (''http://img/1'', ''the sea'')))
                two_messages) ! 1) = ''Here it comes''
   \<and> m_isImageLoading
        (messages (on_render_complete ''42'' (Resolved (Some (''http://img/1'', ''the sea'')))
                     two_messages) ! 1) = Some False
   \<and> ''7'' \<notin> m_id ` set (messages two_messages)
   \<and> messages (on_render_complete ''7'' Rejected two_messages) = messages two_messages"
proof -
  have absent: "''7'' \<notin> m_id ` set (messages two_messages)"
    by (simp add: two_messages_def user_message_def model_message_def)
  have unchanged: "messages (on_render_complete ''7'' Rejected two_messages) = messages two_messages"
    using render_completion_frame [of "''7''" Rejected two_messages] absent by blast
  have i1: "(1::nat) < length (messages two_messages)"
    by (simp add: two_messages_def)
  have id1: "m_id (messages two_messages ! 1) = ''42''"
    by (simp add: two_messages_def model_message_def)
  have txt1: "m_text (messages two_messages ! 1) = ''Here it comes''"
    by (simp add: two_messages_def model_message_def)
  let ?out = "messages (on_render_complete ''42'' (Resolved (Some (''http://img/1'', ''the sea'')))
                 two_messages)"
  from render_completion_frame [of "''42''" "Resolved (Some (''http://img/1'', ''the sea''))" two_messages]
  have "\<forall>i<length (messages two_messages). ?out ! i =
          (if m_id (messages two_messages ! i) = ''42''
           then (messages two_messages ! i)
                  \<lparr>m_image := m_image (?out ! i), m_isImageLoading := Some False\<rparr>
           else messages two_messages ! i)"
    by blast
  with i1 have "?out ! 1 =
          (if m_id (messages two_messages ! 1) = ''42''
           then (messages two_messages ! 1)
                  \<lparr>m_image := m_image (?out ! 1), m_isImageLoading := Some False\<rparr>
           else messages two_messages ! 1)"
    by blast
  with id1 have e: "?out ! 1 = (messages two_messages ! 1)
                  \<lparr>m_image := m_image (?out ! 1), m_isImageLoading := Some False\<rparr>"
    by (simp only: refl if_True)
  have "m_text (?out ! 1) = m_text (messages two_messages ! 1)"
    using arg_cong [OF e, of m_text] by simp
  moreover have "m_isImageLoading (?out ! 1) = Some False"
    using arg_cong [OF e, of m_isImageLoading] by simp
  ultimately show ?thesis
    using absent unchanged i1 txt1 by simp
qed

section \<open>Properties of the session state\<close>

lemma catch_block_clears:
  "chatSession (fst (catch_block st e)) = None \<and> currentApiKey (fst (catch_block st e)) = None
   \<and> isError (snd (catch_block st e)) = Some True
   \<and> errorType (snd (catch_block st e)) \<noteq> None"
  by (simp add: catch_block_def Let_def plain_response_def split: prod.splits)

lemma parse_reply_no_error:
  "parse_reply gs m ep c t = (c', r) \<Longrightarrow> errorType r = None \<and> isError r = None"
  by (auto simp: parse_reply_def Let_def split: prod.splits)

lemma processImageResponse_no_error:
  "errorType (processImageResponse ps fb) = None \<and> isError (processImageResponse ps fb) = None"
  by (simp add: processImageResponse_def plain_response_def split: prod.splits)

lemma initializeChat_binding:
  assumes "initializeChat B history apiKey language st = (st1, thrown)"
  shows "currentApiKey st1 = Some (getApiKey B apiKey)"
    and "currentLanguage st1 = language"
    and "textOnlyMessageCount st1 = textOnlyMessageCount st"
    and "thrown = None \<Longrightarrow> \<exists>s. chatSession st1 = Some s \<and> s_key s = getApiKey B apiKey
                                   \<and> s_language s = language"
    and "thrown \<noteq> None \<Longrightarrow> chatSession st1 = chatSession st"
  using assms by (auto simp: initializeChat_def Let_def split: option.splits)

lemma try_block_success_no_error:
  assumes "try_block B message att force apiKey ep gs ctx language st = (st1, Inr r)"
  shows "errorType r = None \<and> isError r = None"
  using assms
  by (auto simp: try_block_def Let_def processImageResponse_no_error plain_response_def
      dest: parse_reply_no_error split: if_splits sum.splits option.splits prod.splits)

lemma send_error_clears:
  assumes "sendMessageToEve B message history att force apiKey ep gs ctx language st = (st', r)"
    and "errorType r = Some ty"
  shows "isError r = Some True \<and> chatSession st' = None \<and> currentApiKey st' = None"
proof -
  let ?st0 = "if chatSession st = None \<or> currentLanguage st \<noteq> language
                    \<or> currentApiKey st \<noteq> Some (getApiKey B apiKey)
              then startChatWithHistory B history apiKey language st else st"
  obtain st1 res where tb: "try_block B message att force apiKey ep gs ctx language ?st0 = (st1, res)"
    by (cases "try_block B message att force apiKey ep gs ctx language ?st0") blast
  show ?thesis
  proof (cases res)
    case (Inl e)
    with tb assms(1) have "catch_block st1 e = (st', r)"
      by (simp add: sendMessageToEve_def Let_def)
    with catch_block_clears [of st1 e] show ?thesis by simp
  next
    case (Inr r')
    with tb assms(1) have "r = r'"
      by (simp add: sendMessageToEve_def Let_def)
    with try_block_success_no_error tb Inr assms(2) show ?thesis by fastforce
  qed
qed

lemma try_block_chat_session:
  assumes "try_block B message att False apiKey ep gs ctx language st = (st1, Inr r)"
  shows "\<exists>s t. chatSession st1 = Some s \<and> chat_send B s (message_content message att) = Inr t
          \<and> (chatSession st = Some s
              \<or> (chatSession st = None \<and> s_key s = getApiKey B apiKey \<and> s_language s = language))"
proof (cases "chatSession st")
  case None
  obtain st2 thrown where ic: "initializeChat B [] apiKey language st = (st2, thrown)"
    by (cases "initializeChat B [] apiKey language st") blast
  from assms None ic have th: "thrown = None"
    by (auto simp: try_block_def Let_def split: option.splits)
  from initializeChat_binding(4) [OF ic th] obtain s where
    s: "chatSession st2 = Some s" "s_key s = getApiKey B apiKey" "s_language s = language"
    by blast
  from assms None ic th s show ?thesis
    by (auto simp: try_block_def Let_def split: sum.splits prod.splits)
next
  case (Some s)
  with assms show ?thesis
    by (auto simp: try_block_def Let_def split: sum.splits prod.splits)
qed


lemma startChat_binding:
  assumes "chatSession st = None"
  shows "currentApiKey (startChatWithHistory B history apiKey language st) = Some (getApiKey B apiKey)"
    and "chatSession (startChatWithHistory B history apiKey language st) = Some s
         \<Longrightarrow> s_key s = getApiKey B apiKey \<and> s_language s = language"
proof -
  obtain st0 thrown where ic: "initializeChat B history apiKey language st = (st0, thrown)"
    by (cases "initializeChat B history apiKey language st") blast
  then have st0: "startChatWithHistory B history apiKey language st = st0"
    by (simp add: startChatWithHistory_def)
  from initializeChat_binding(1) [OF ic] st0
  show "currentApiKey (startChatWithHistory B history apiKey language st) = Some (getApiKey B apiKey)"
    by simp
  assume "chatSession (startChatWithHistory B history apiKey language st) = Some s"
  with st0 have some: "chatSession st0 = Some s" by simp
  show "s_key s = getApiKey B apiKey \<and> s_language s = language"
  proof (cases thrown)
    case None
    from initializeChat_binding(4) [OF ic None] some show ?thesis by auto
  next
    case (Some e)
    then have "thrown \<noteq> None" by simp
    from initializeChat_binding(5) [OF ic this] some assms show ?thesis by simp
  qed
qed

lemma send_after_clear:
  assumes "chatSession st = None"
  shows "sendMessageToEve B message history att force apiKey ep gs ctx language st =
           (case try_block B message att force apiKey ep gs ctx language
                   (startChatWithHistory B history apiKey language st) of
              (st2, Inr response) \<Rightarrow> (st2, response)
            | (st2, Inl e) \<Rightarrow> catch_block st2 e)"
  using assms by (simp add: sendMessageToEve_def Let_def)

lemma send_after_clear_session:
  assumes "chatSession st = None"
    and "sendMessageToEve B message history att False apiKey ep gs ctx language st = (st2, r2)"
    and "errorType r2 = None"
  shows "\<exists>s t. chatSession st2 = Some s \<and> s_key s = getApiKey B apiKey \<and> s_language s = language
               \<and> chat_send B s (message_content message att) = Inr t"
proof -
  let ?st0 = "startChatWithHistory B history apiKey language st"
  obtain st1 res where tb: "try_block B message att False apiKey ep gs ctx language ?st0 = (st1, res)"
    by (cases "try_block B message att False apiKey ep gs ctx language ?st0") blast
  show ?thesis
  proof (cases res)
    case (Inl e)
    with tb assms(1,2) have "catch_block st1 e = (st2, r2)"
      by (simp add: send_after_clear)
    with catch_block_clears [of st1 e] assms(3) show ?thesis by simp
  next
    case (Inr r')
    with tb assms(1,2) have eq: "st2 = st1" "r2 = r'"
      by (simp_all add: send_after_clear)
    from try_block_chat_session [OF tb [unfolded Inr]] obtain s t where
      s: "chatSession st1 = Some s" "chat_send B s (message_content message att) = Inr t"
         "chatSession ?st0 = Some s
          \<or> (chatSession ?st0 = None \<and> s_key s = getApiKey B apiKey \<and> s_language s = language)"
      by blast
    from s(3) startChat_binding(2) [OF assms(1), of B history apiKey language s]
    have "s_key s = getApiKey B apiKey \<and> s_language s = language" by blast
    with s eq show ?thesis by blast
  qed
qed

text \<open>
  Claim C10. Whenever \<^verbatim>\<open>sendMessageToEve\<close> returns an error response, of whichever error type
  (\<open>QUOTA_EXCEEDED\<close> as well as \<open>AUTH_ERROR\<close> and \<open>GENERAL\<close>), it has set the chat session
  and the tracked key to null. Hence the next send, whatever its arguments, starts by calling
  \<^verbatim>\<open>startChatWithHistory\<close> with the key it is given: the tracked key becomes that key, a
  session this leaves is bound to that key and language, and a reply the chat then gives
  comes from a session bound to that key.
\<close>

theorem failed_send_forces_reinit:
  assumes "sendMessageToEve B message history att force apiKey ep gs ctx language st = (st1, r1)"
    and "errorType r1 = Some ty"
  shows "isError r1 = Some True \<and> chatSession st1 = None \<and> currentApiKey st1 = None
    \<and> (\<forall>B2 message2 history2 att2 force2 apiKey2 ep2 gs2 ctx2 language2.
         sendMessageToEve B2 message2 history2 att2 force2 apiKey2 ep2 gs2 ctx2 language2 st1 =
           (case try_block B2 message2 att2 force2 apiKey2 ep2 gs2 ctx2 language2
                   (startChatWithHistory B2 history2 apiKey2 language2 st1) of
              (st2, Inr response) \<Rightarrow> (st2, response)
            | (st2, Inl e) \<Rightarrow> catch_block st2 e)
         \<and> currentApiKey (startChatWithHistory B2 history2 apiKey2 language2 st1)
             = Some (getApiKey B2 apiKey2)
         \<and> (\<forall>s. chatSession (startChatWithHistory B2 history2 apiKey2 language2 st1) = Some s
                 \<longrightarrow> s_key s = getApiKey B2 apiKey2 \<and> s_language s = language2)
         \<and> (\<forall>st2 r2.
               sendMessageToEve B2 message2 history2 att2 False apiKey2 ep2 gs2 ctx2 language2 st1
                 = (st2, r2) \<and> errorType r2 = None
               \<longrightarrow> (\<exists>s t. chatSession st2 = Some s \<and> s_key s = getApiKey B2 apiKey2
                          \<and> s_language s = language2
                          \<and> chat_send B2 s (message_content message2 att2) = Inr t)))"
proof -
  from send_error_clears [OF assms] have cleared:
    "isError r1 = Some True" "chatSession st1 = None" "currentApiKey st1 = None"
    by simp_all
  show ?thesis
  proof (intro conjI allI impI)
    show "isError r1 = Some True" by (rule cleared(1))
    show "chatSession st1 = None" by (rule cleared(2))
    show "currentApiKey st1 = None" by (rule cleared(3))
  next
    fix B2 message2 history2 att2 force2 apiKey2 ep2 gs2 ctx2 language2
    show "sendMessageToEve B2 message2 history2 att2 force2 apiKey2 ep2 gs2 ctx2 language2 st1 =
           (case try_block B2 message2 att2 force2 apiKey2 ep2 gs2 ctx2 language2
                   (startChatWithHistory B2 history2 apiKey2 language2 st1) of
              (st2, Inr response) \<Rightarrow> (st2, response)
            | (st2, Inl e) \<Rightarrow> catch_block st2 e)"
      by (rule send_after_clear [OF cleared(2)])
    show "currentApiKey (startChatWithHistory B2 history2 apiKey2 language2 st1)
             = Some (getApiKey B2 apiKey2)"
      by (rule startChat_binding(1) [OF cleared(2)])
  next
    fix B2 history2 apiKey2 language2 s
    assume "chatSession (startChatWithHistory B2 history2 apiKey2 language2 st1) = Some s"
    from startChat_binding(2) [OF cleared(2) this]
    show "s_key s = getApiKey B2 apiKey2" and "s_language s = language2"
      by simp_all
  next
    fix B2 message2 history2 att2 apiKey2 ep2 gs2 ctx2 language2 st2 r2
    assume "sendMessageToEve B2 message2 history2 att2 False apiKey2 ep2 gs2 ctx2 language2 st1
                 = (st2, r2) \<and> errorType r2 = None"
    then show "\<exists>s t. chatSession st2 = Some s \<and> s_key s = getApiKey B2 apiKey2
                          \<and> s_language s = language2
                          \<and> chat_send B2 s (message_content message2 att2) = Inr t"
      using send_after_clear_session [OF cleared(2)] by blast
  qed
qed

lemma first_send_type: "errorType (snd first_send) = Some QUOTA_EXCEEDED"
  by code_simp

lemma second_send_type: "errorType (snd second_send) = None"
  by code_simp

lemma second_key: "getApiKey rotating_backends (Some ''key-2'') = ''key-2''"
  by code_simp

theorem failed_send_forces_reinit_witness:
  "errorType (snd first_send) = Some QUOTA_EXCEEDED
   \<and> chatSession (fst first_send) = None \<and> currentApiKey (fst first_send) = None
   \<and> errorType (snd second_send) = None
   \<and> map_option s_key (chatSession (fst second_send)) = Some ''key-2''"
proof -
  have s1: "sendMessageToEve rotating_backends ''hi'' [] None False (Some ''key-1'') None
                  \<lparr>aiImageGeneration = True\<rparr> '''' english initial_state
            = (fst first_send, snd first_send)"
    by (simp add: first_send_def)
  have s2: "sendMessageToEve rotating_backends ''hi'' [] None False (Some ''key-2'') None
                   \<lparr>aiImageGeneration = True\<rparr> '''' english (fst first_send)
            = (fst second_send, snd second_send) \<and> errorType (snd second_send) = None"
    using second_send_type by (simp add: second_send_def)
  note inst = failed_send_forces_reinit [OF s1 first_send_type]
  from inst have cleared: "chatSession (fst first_send) = None" "currentApiKey (fst first_send) = None"
    by blast+
  from inst s2 have "\<exists>s t. chatSession (fst second_send) = Some s
        \<and> s_key s = getApiKey rotating_backends (Some ''key-2'')
        \<and> s_language s = english
        \<and> chat_send rotating_backends s (message_content ''hi'' None) = Inr t"
    by blast
  then have "map_option s_key (chatSession (fst second_send)) = Some ''key-2''"
    by (auto simp: second_key)
  with cleared first_send_type second_send_type show ?thesis by simp
qed

section \<open>Properties of the visual pipeline\<close>








section \<open>Properties of the directive parser\<close>












section \<open>Properties of the dispatch loop\<close>

lemma findIndex_distinct:
  "distinct (map k_id xs) \<Longrightarrow> j < length xs \<Longrightarrow>
   findIndex (\<lambda>k. Some (k_id k) = Some (k_id (xs ! j))) xs = Some j"
proof (induction xs arbitrary: j)
  case Nil
  then show ?case by simp
next
  case (Cons x xs)
  show ?case
  proof (cases j)
    case 0
    then show ?thesis by simp
  next
    case (Suc j')
    with Cons.prems have "j' < length xs" and "k_id x \<noteq> k_id (xs ! j')"
      by auto
    with Cons Suc show ?thesis by auto
  qed
qed

lemma findIndex_absent:
  "\<forall>x\<in>set xs. \<not> P x \<Longrightarrow> findIndex P xs = None"
  by (induction xs) auto

lemma next_index_wraps:
  assumes "i < n" and "a < n"
  shows "(((i + a) mod n + 1) mod n = i) = (a + 1 = (n::nat))"
proof -
  have step: "((i + a) mod n + 1) mod n = (i + (a + 1)) mod n"
    by (simp add: mod_Suc_eq)
  show ?thesis
  proof (cases "a + 1 = n")
    case True
    have "(i + n) mod n = i"
      using assms(1) by simp
    then have "(i + (a + 1)) mod n = i"
      by (simp only: True)
    then have "((i + a) mod n + 1) mod n = i"
      by (simp only: step)
    with True show ?thesis by blast
  next
    case False
    with assms have small: "a + 1 < n" by simp
    have "(i + (a + 1)) mod n \<noteq> i"
    proof (cases "i + (a + 1) < n")
      case True
      then show ?thesis by simp
    next
      case False
      with assms small have "(i + (a + 1)) mod n = i + (a + 1) - n"
        by (simp add: mod_if)
      with assms small False show ?thesis by simp
    qed
    then have "((i + a) mod n + 1) mod n \<noteq> i"
      by (simp only: step not_False_eq_True)
    with False show ?thesis by blast
  qed
qed

lemma quota_failureD:
  assumes "quota_failure (send svc k)"
  obtains svc' r where "send svc k = (svc', Some r)" and "isError r = Some True"
    and "errorType r = Some QUOTA_EXCEEDED"
  using assms by (cases "send svc k") (auto simp: quota_failure_def split: option.splits)
lemma loop_step_quota:
  assumes "attempts < totalKeys apiKeys"
    and "send (d_svc d) (first_key apiKeys keyIdToTry) = (svc', Some r)"
    and "isError r = Some True" and "errorType r = Some QUOTA_EXCEEDED"
    and "length apiKeys > 1"
  shows "rotation_loop send apiKeys initialKeyId now memory keyIdToTry attempts d =
     (let d1 = d\<lparr>d_svc := svc', d_calls := d_calls d @ [first_key apiKeys keyIdToTry]\<rparr>;
          nextKey = apiKeys ! ((case findIndex (\<lambda>k. Some (k_id k) = keyIdToTry) apiKeys of
                                  Some i \<Rightarrow> i + 1 | None \<Rightarrow> 0) mod length apiKeys)
      in if Some (k_id nextKey) = initialKeyId \<and> attempts > 0
         then (push_error now EXHAUSTED_AT_START d1, None)
         else rotation_loop send apiKeys initialKeyId now memory (Some (k_id nextKey))
                (attempts + 1)
                (d1\<lparr>d_app := (d_app d1)\<lparr>activeKeyId := Some (k_id nextKey),
                                          storedActiveKeyId := Some (k_id nextKey)\<rparr>\<rparr>))"
  using assms by (subst rotation_loop.simps) (simp add: Let_def first_key_def)

lemma loop_step_final:
  assumes "attempts < totalKeys apiKeys"
    and "send (d_svc d) (first_key apiKeys keyIdToTry) = (svc', Some r)"
    and "\<not> (isError r = Some True \<and> errorType r = Some QUOTA_EXCEEDED \<and> length apiKeys > 1)"
  shows "rotation_loop send apiKeys initialKeyId now memory keyIdToTry attempts d =
     finish_attempt apiKeys now memory r
       (d\<lparr>d_svc := svc', d_calls := d_calls d @ [first_key apiKeys keyIdToTry]\<rparr>)"
  using assms by (subst rotation_loop.simps) (auto simp: Let_def first_key_def)

lemma loop_exit:
  assumes "\<not> attempts < totalKeys apiKeys"
  shows "rotation_loop send apiKeys initialKeyId now memory keyIdToTry attempts d =
           (push_error now EXHAUSTED_AFTER_LOOP d, None)"
  using assms by (subst rotation_loop.simps) simp

lemma distinct_ids:
  assumes "distinct (map k_id xs)" and "i < length xs" and "j < length xs" and "j \<noteq> i"
  shows "k_id (xs ! j) \<noteq> k_id (xs ! i)"
proof -
  from assms have "map k_id xs ! j \<noteq> map k_id xs ! i"
    by (simp add: nth_eq_iff_index_eq del: nth_map)
  with assms(2,3) show ?thesis by simp
qed

lemma loop_from_listed_key:
  assumes quota: "\<And>svc k. quota_failure (send svc k)"
    and many: "2 \<le> length apiKeys"
    and dist: "distinct (map k_id apiKeys)"
    and i: "i < length apiKeys"
    and init: "initialKeyId = Some (k_id (apiKeys ! i))"
  shows "a < length apiKeys \<Longrightarrow>
         keyIdToTry = Some (k_id (apiKeys ! ((i + a) mod length apiKeys))) \<Longrightarrow>
         \<exists>d'. rotation_loop send apiKeys initialKeyId now memory keyIdToTry a d = (d', None)
              \<and> length (d_calls d') = length (d_calls d) + (length apiKeys - a)
              \<and> messages (d_app d') = messages (d_app d)
                   @ [(model_message now EXHAUSTED_AT_START)\<lparr>m_isError := Some True\<rparr>]"
proof (induction n \<equiv> "length apiKeys - Suc a" arbitrary: a d keyIdToTry)
  case 0
  then have last: "a + 1 = length apiKeys" by simp
  from quota [of "d_svc d" "first_key apiKeys keyIdToTry"] obtain svc' r where
    r: "send (d_svc d) (first_key apiKeys keyIdToTry) = (svc', Some r)"
       "isError r = Some True" "errorType r = Some QUOTA_EXCEEDED"
    by (rule quota_failureD)
  have lt: "a < totalKeys apiKeys" and more: "length apiKeys > 1"
    using "0.prems"(1) many by (auto simp: totalKeys_def)
  have pos: "(i + a) mod length apiKeys < length apiKeys"
    by (rule mod_less_divisor) (use many in auto)
  have idx: "findIndex (\<lambda>k. Some (k_id k) = keyIdToTry) apiKeys
             = Some ((i + a) mod length apiKeys)"
    unfolding "0.prems"(2) by (rule findIndex_distinct [OF dist pos])
  have nxt: "((i + a) mod length apiKeys + 1) mod length apiKeys = i"
    using next_index_wraps [OF i "0.prems"(1)] last by simp
  have apos: "a > 0" using last many by simp
  show ?case
    using loop_step_quota [where send = send and d = d and initialKeyId = initialKeyId
            and now = now and memory = memory, OF lt r more] idx nxt init apos last
    by (simp add: Let_def push_error_def push_message_def)
next
  case (Suc n)
  then have more_left: "a + 1 < length apiKeys" by simp
  from quota [of "d_svc d" "first_key apiKeys keyIdToTry"] obtain svc' r where
    r: "send (d_svc d) (first_key apiKeys keyIdToTry) = (svc', Some r)"
       "isError r = Some True" "errorType r = Some QUOTA_EXCEEDED"
    by (rule quota_failureD)
  have lt: "a < totalKeys apiKeys" and more: "length apiKeys > 1"
    using Suc.prems(1) many by (auto simp: totalKeys_def)
  have pos: "(i + a) mod length apiKeys < length apiKeys"
    by (rule mod_less_divisor) (use many in auto)
  have idx: "findIndex (\<lambda>k. Some (k_id k) = keyIdToTry) apiKeys
             = Some ((i + a) mod length apiKeys)"
    unfolding Suc.prems(2) by (rule findIndex_distinct [OF dist pos])
  let ?j = "((i + a) mod length apiKeys + 1) mod length apiKeys"
  have j: "?j < length apiKeys"
    by (rule mod_less_divisor) (use many in auto)
  have "?j \<noteq> i"
    using next_index_wraps [OF i Suc.prems(1)] more_left by simp
  with dist i j have other: "k_id (apiKeys ! ?j) \<noteq> k_id (apiKeys ! i)"
    by (intro distinct_ids)
  have jeq: "?j = (i + (a + 1)) mod length apiKeys"
    by (simp add: mod_Suc_eq)
  let ?d = "d\<lparr>d_svc := svc', d_calls := d_calls d @ [first_key apiKeys keyIdToTry],
              d_app := (d_app d)\<lparr>activeKeyId := Some (k_id (apiKeys ! ?j)),
                                  storedActiveKeyId := Some (k_id (apiKeys ! ?j))\<rparr>\<rparr>"
  have step: "rotation_loop send apiKeys initialKeyId now memory keyIdToTry a d =
              rotation_loop send apiKeys initialKeyId now memory (Some (k_id (apiKeys ! ?j)))
                (a + 1) ?d"
    using loop_step_quota [where send = send and d = d and initialKeyId = initialKeyId
            and now = now and memory = memory, OF lt r more] idx init other
    by (simp add: Let_def)
  have n: "n = length apiKeys - Suc (a + 1)" using Suc.hyps(2) by simp
  from Suc.hyps(1) [where keyIdToTry = "Some (k_id (apiKeys ! ?j))" and d = ?d, OF n more_left] jeq
  obtain d' where
    "rotation_loop send apiKeys initialKeyId now memory (Some (k_id (apiKeys ! ?j))) (a + 1) ?d
       = (d', None)"
    "length (d_calls d') = length (d_calls ?d) + (length apiKeys - (a + 1))"
    "messages (d_app d') = messages (d_app ?d)
       @ [(model_message now EXHAUSTED_AT_START)\<lparr>m_isError := Some True\<rparr>]"
    by auto
  with step more_left show ?case by simp
qed
lemma loop_from_unlisted_key:
  assumes quota: "\<And>svc k. quota_failure (send svc k)"
    and many: "2 \<le> length apiKeys"
    and dist: "distinct (map k_id apiKeys)"
    and unlisted: "\<forall>k\<in>set apiKeys. Some (k_id k) \<noteq> initialKeyId"
  shows "0 < a \<Longrightarrow> a \<le> length apiKeys \<Longrightarrow>
         keyIdToTry = Some (k_id (apiKeys ! (a - 1))) \<Longrightarrow>
         \<exists>d'. rotation_loop send apiKeys initialKeyId now memory keyIdToTry a d = (d', None)
              \<and> length (d_calls d') = length (d_calls d) + (length apiKeys - a)
              \<and> messages (d_app d') = messages (d_app d)
                   @ [(model_message now EXHAUSTED_AFTER_LOOP)\<lparr>m_isError := Some True\<rparr>]"
proof (induction n \<equiv> "length apiKeys - a" arbitrary: a d keyIdToTry)
  case 0
  then have "\<not> a < totalKeys apiKeys"
    using many by (auto simp: totalKeys_def)
  from loop_exit [where send = send and initialKeyId = initialKeyId and now = now
         and memory = memory and keyIdToTry = keyIdToTry and d = d, OF this] "0.hyps"
  show ?case
    by (simp add: push_error_def push_message_def)
next
  case (Suc n)
  then have inside: "a < length apiKeys" by simp
  from quota [of "d_svc d" "first_key apiKeys keyIdToTry"] obtain svc' r where
    r: "send (d_svc d) (first_key apiKeys keyIdToTry) = (svc', Some r)"
       "isError r = Some True" "errorType r = Some QUOTA_EXCEEDED"
    by (rule quota_failureD)
  have lt: "a < totalKeys apiKeys" and more: "length apiKeys > 1"
    using inside many by (auto simp: totalKeys_def)
  have prev: "a - 1 < length apiKeys" using inside by simp
  have idx: "findIndex (\<lambda>k. Some (k_id k) = keyIdToTry) apiKeys = Some (a - 1)"
    unfolding Suc.prems(3) by (rule findIndex_distinct [OF dist prev])
  have nxt: "(a - 1 + 1) mod length apiKeys = a"
    using Suc.prems(1) inside by simp
  from unlisted inside have other: "Some (k_id (apiKeys ! a)) \<noteq> initialKeyId"
    by simp
  let ?d = "d\<lparr>d_svc := svc', d_calls := d_calls d @ [first_key apiKeys keyIdToTry],
              d_app := (d_app d)\<lparr>activeKeyId := Some (k_id (apiKeys ! a)),
                                  storedActiveKeyId := Some (k_id (apiKeys ! a))\<rparr>\<rparr>"
  have step: "rotation_loop send apiKeys initialKeyId now memory keyIdToTry a d =
              rotation_loop send apiKeys initialKeyId now memory (Some (k_id (apiKeys ! a)))
                (a + 1) ?d"
    using loop_step_quota [where send = send and d = d and initialKeyId = initialKeyId
            and now = now and memory = memory, OF lt r more] idx nxt other
    by (simp add: Let_def)
  have n: "n = length apiKeys - (a + 1)" using Suc.hyps(2) by simp
  have "0 < a + 1" "a + 1 \<le> length apiKeys" "Some (k_id (apiKeys ! a)) = Some (k_id (apiKeys ! (a + 1 - 1)))"
    using inside by simp_all
  from Suc.hyps(1) [where d = ?d, OF n this]
  obtain d' where
    "rotation_loop send apiKeys initialKeyId now memory (Some (k_id (apiKeys ! a))) (a + 1) ?d
       = (d', None)"
    "length (d_calls d') = length (d_calls ?d) + (length apiKeys - (a + 1))"
    "messages (d_app d') = messages (d_app ?d)
       @ [(model_message now EXHAUSTED_AFTER_LOOP)\<lparr>m_isError := Some True\<rparr>]"
    by auto
  with step inside show ?case by simp
qed

lemma loop_unlisted_start:
  assumes quota: "\<And>svc k. quota_failure (send svc k)"
    and many: "2 \<le> length apiKeys"
    and dist: "distinct (map k_id apiKeys)"
    and unlisted: "\<forall>k\<in>set apiKeys. Some (k_id k) \<noteq> initialKeyId"
  shows "\<exists>d'. rotation_loop send apiKeys initialKeyId now memory initialKeyId 0 d = (d', None)
              \<and> length (d_calls d') = length (d_calls d) + length apiKeys
              \<and> messages (d_app d') = messages (d_app d)
                   @ [(model_message now EXHAUSTED_AFTER_LOOP)\<lparr>m_isError := Some True\<rparr>]"
proof -
  from quota [of "d_svc d" "first_key apiKeys initialKeyId"] obtain svc' r where
    r: "send (d_svc d) (first_key apiKeys initialKeyId) = (svc', Some r)"
       "isError r = Some True" "errorType r = Some QUOTA_EXCEEDED"
    by (rule quota_failureD)
  have lt: "0 < totalKeys apiKeys" and more: "length apiKeys > 1"
    using many by (auto simp: totalKeys_def)
  have idx: "findIndex (\<lambda>k. Some (k_id k) = initialKeyId) apiKeys = None"
    using unlisted by (intro findIndex_absent) simp
  let ?d = "d\<lparr>d_svc := svc', d_calls := d_calls d @ [first_key apiKeys initialKeyId],
              d_app := (d_app d)\<lparr>activeKeyId := Some (k_id (apiKeys ! 0)),
                                  storedActiveKeyId := Some (k_id (apiKeys ! 0))\<rparr>\<rparr>"
  have step: "rotation_loop send apiKeys initialKeyId now memory initialKeyId 0 d =
              rotation_loop send apiKeys initialKeyId now memory (Some (k_id (apiKeys ! 0))) 1 ?d"
    using loop_step_quota [where send = send and d = d and initialKeyId = initialKeyId
            and now = now and memory = memory, OF lt r more] idx
    by (simp add: Let_def)
  have "(0::nat) < 1" "1 \<le> length apiKeys"
       "Some (k_id (apiKeys ! 0)) = Some (k_id (apiKeys ! (1 - 1)))"
    using many by simp_all
  from loop_from_unlisted_key [where send = send and now = now and memory = memory and d = ?d,
         OF quota many dist unlisted this]
  obtain d' where
    "rotation_loop send apiKeys initialKeyId now memory (Some (k_id (apiKeys ! 0))) 1 ?d
       = (d', None)"
    "length (d_calls d') = length (d_calls ?d) + (length apiKeys - 1)"
    "messages (d_app d') = messages (d_app ?d)
       @ [(model_message now EXHAUSTED_AFTER_LOOP)\<lparr>m_isError := Some True\<rparr>]"
    by auto
  with step many show ?thesis by simp
qed

lemma exhaustion_messages:
  "is_exhaustion ((model_message now EXHAUSTED_AT_START)\<lparr>m_isError := Some True\<rparr>)"
  "is_exhaustion ((model_message now EXHAUSTED_AFTER_LOOP)\<lparr>m_isError := Some True\<rparr>)"
  by (simp_all add: is_exhaustion_def model_message_def)

lemma all_quota_many_keys:
  assumes quota: "\<And>svc k. quota_failure (send svc k)"
    and many: "2 \<le> length apiKeys"
    and dist: "distinct (map k_id apiKeys)"
  shows "\<exists>d' m. processMessageSending send apiKeys initialKeyId now app svc = (d', None)
              \<and> length (d_calls d') = length apiKeys
              \<and> messages (d_app d') = messages app @ [m] \<and> is_exhaustion m"
proof (cases "\<forall>k\<in>set apiKeys. Some (k_id k) \<noteq> initialKeyId")
  case True
  from loop_unlisted_start [where send = send and now = now and memory = "visualMemory app"
         and d = "\<lparr>d_app = app, d_svc = svc, d_calls = []\<rparr>", OF quota many dist True]
  show ?thesis
    using exhaustion_messages(2) [of now] by (auto simp: processMessageSending_def)
next
  case False
  then obtain k where "k \<in> set apiKeys" "Some (k_id k) = initialKeyId" by blast
  then obtain i where i: "i < length apiKeys" "initialKeyId = Some (k_id (apiKeys ! i))"
    by (auto simp: in_set_conv_nth)
  have "0 < length apiKeys" using many by auto
  moreover have "initialKeyId = Some (k_id (apiKeys ! ((i + 0) mod length apiKeys)))"
    using i by simp
  ultimately obtain d' where
    "rotation_loop send apiKeys initialKeyId now (visualMemory app) initialKeyId 0
       \<lparr>d_app = app, d_svc = svc, d_calls = []\<rparr> = (d', None)"
    "length (d_calls d') = length (d_calls \<lparr>d_app = app, d_svc = svc, d_calls = []\<rparr>)
                           + (length apiKeys - 0)"
    "messages (d_app d') = messages (d_app \<lparr>d_app = app, d_svc = svc, d_calls = []\<rparr>)
       @ [(model_message now EXHAUSTED_AT_START)\<lparr>m_isError := Some True\<rparr>]"
    using loop_from_listed_key [where send = send and a = 0 and keyIdToTry = initialKeyId and now = now
            and memory = "visualMemory app"
            and d = "\<lparr>d_app = app, d_svc = svc, d_calls = []\<rparr>", OF quota many dist i]
    by blast
  then show ?thesis
    using exhaustion_messages(1) [of now] by (auto simp: processMessageSending_def)
qed

lemma single_attempt:
  assumes "send svc (first_key apiKeys initialKeyId) = (svc', Some r)"
    and "isError r = Some True"
    and "errorType r \<noteq> Some QUOTA_EXCEEDED \<or> length apiKeys \<le> 1"
  shows "processMessageSending send apiKeys initialKeyId now app svc =
           (\<lparr>d_app = app\<lparr>messages := messages app
                             @ [(model_message now (r_text r))\<lparr>m_isError := Some True\<rparr>]\<rparr>,
             d_svc = svc', d_calls = [first_key apiKeys initialKeyId]\<rparr>, None)"
proof -
  have lt: "0 < totalKeys apiKeys" by (simp add: totalKeys_def)
  have nq: "\<not> (isError r = Some True \<and> errorType r = Some QUOTA_EXCEEDED \<and> length apiKeys > 1)"
    using assms(3) by auto
  show ?thesis
    using loop_step_final [where send = send and d = "\<lparr>d_app = app, d_svc = svc, d_calls = []\<rparr>"
            and initialKeyId = initialKeyId and now = now and memory = "visualMemory app"
            and keyIdToTry = initialKeyId and apiKeys = apiKeys and attempts = 0
            and svc' = svc' and r = r] lt assms(1,2) nq
    by (simp add: processMessageSending_def finish_attempt_def push_error_def push_message_def)
qed
text \<open>
  Claim C1, as the code has it. With two or more credentials of pairwise distinct
  identifiers, if every attempt fails with \<open>QUOTA_EXCEEDED\<close>, the loop calls the send exactly
  as many times as there are credentials and then appends one exhaustion message. With at
  most one credential the quota branch is not taken: the loop calls the send once and
  appends the error message of that response. If the first attempt fails with \<open>GENERAL\<close> or
  \<open>AUTH_ERROR\<close>, the loop calls the send once, appends the error message of that response, and
  leaves the active credential as it was.
\<close>

theorem dispatch_attempts:
  "((\<forall>svc k. quota_failure (send svc k)) \<and> 2 \<le> length apiKeys \<and> distinct (map k_id apiKeys)
    \<longrightarrow> (\<exists>d' m. processMessageSending send apiKeys initialKeyId now app svc = (d', None)
              \<and> length (d_calls d') = length apiKeys
              \<and> messages (d_app d') = messages app @ [m] \<and> is_exhaustion m))
   \<and> ((\<forall>svc k. quota_failure (send svc k)) \<and> length apiKeys \<le> 1
      \<longrightarrow> (\<exists>d' r. processMessageSending send apiKeys initialKeyId now app svc = (d', None)
                \<and> length (d_calls d') = 1
                \<and> snd (send svc (first_key apiKeys initialKeyId)) = Some r
                \<and> messages (d_app d')
                    = messages app @ [(model_message now (r_text r))\<lparr>m_isError := Some True\<rparr>]))
   \<and> (other_failure (send svc (first_key apiKeys initialKeyId))
      \<longrightarrow> (\<exists>d' r. processMessageSending send apiKeys initialKeyId now app svc = (d', None)
                \<and> d_calls d' = [first_key apiKeys initialKeyId]
                \<and> activeKeyId (d_app d') = activeKeyId app
                \<and> storedActiveKeyId (d_app d') = storedActiveKeyId app
                \<and> snd (send svc (first_key apiKeys initialKeyId)) = Some r
                \<and> messages (d_app d')
                    = messages app @ [(model_message now (r_text r))\<lparr>m_isError := Some True\<rparr>]))"
proof (intro conjI impI)
  assume "(\<forall>svc k. quota_failure (send svc k)) \<and> 2 \<le> length apiKeys
          \<and> distinct (map k_id apiKeys)"
  then show "\<exists>d' m. processMessageSending send apiKeys initialKeyId now app svc = (d', None)
              \<and> length (d_calls d') = length apiKeys
              \<and> messages (d_app d') = messages app @ [m] \<and> is_exhaustion m"
    using all_quota_many_keys [where send = send] by blast
next
  assume a: "(\<forall>svc k. quota_failure (send svc k)) \<and> length apiKeys \<le> 1"
  then have "quota_failure (send svc (first_key apiKeys initialKeyId))" by blast
  then obtain svc' r where r: "send svc (first_key apiKeys initialKeyId) = (svc', Some r)"
    "isError r = Some True"
    by (rule quota_failureD)
  from a have "errorType r \<noteq> Some QUOTA_EXCEEDED \<or> length apiKeys \<le> 1" by blast
  from single_attempt [where send = send and svc = svc and apiKeys = apiKeys
         and initialKeyId = initialKeyId and now = now and app = app, OF r this] r(1)
  show "\<exists>d' r. processMessageSending send apiKeys initialKeyId now app svc = (d', None)
                \<and> length (d_calls d') = 1
                \<and> snd (send svc (first_key apiKeys initialKeyId)) = Some r
                \<and> messages (d_app d')
                    = messages app @ [(model_message now (r_text r))\<lparr>m_isError := Some True\<rparr>]"
    by simp
next
  assume "other_failure (send svc (first_key apiKeys initialKeyId))"
  then obtain svc' r where r: "send svc (first_key apiKeys initialKeyId) = (svc', Some r)"
    "isError r = Some True" and ty: "errorType r = Some GENERAL \<or> errorType r = Some AUTH_ERROR"
    by (cases "send svc (first_key apiKeys initialKeyId)")
       (auto simp: other_failure_def split: option.splits)
  from ty have "errorType r \<noteq> Some QUOTA_EXCEEDED \<or> length apiKeys \<le> 1" by auto
  from single_attempt [where send = send and svc = svc and apiKeys = apiKeys
         and initialKeyId = initialKeyId and now = now and app = app, OF r this] r(1)
  show "\<exists>d' r. processMessageSending send apiKeys initialKeyId now app svc = (d', None)
                \<and> d_calls d' = [first_key apiKeys initialKeyId]
                \<and> activeKeyId (d_app d') = activeKeyId app
                \<and> storedActiveKeyId (d_app d') = storedActiveKeyId app
                \<and> snd (send svc (first_key apiKeys initialKeyId)) = Some r
                \<and> messages (d_app d')
                    = messages app @ [(model_message now (r_text r))\<lparr>m_isError := Some True\<rparr>]"
    by simp
qed

lemma always_quota: "\<forall>svc k. quota_failure (always quota_response svc k)"
  by (simp add: quota_failure_def always_def quota_response_def)

lemma always_auth: "other_failure (always auth_response svc k)"
  by (simp add: other_failure_def always_def auth_response_def)

lemma three_credentials:
  "2 \<le> length [credential ''1'', credential ''2'', credential ''3'']
   \<and> distinct (map k_id [credential ''1'', credential ''2'', credential ''3''])"
  by (simp add: credential_def)

theorem dispatch_attempts_witness:
  "(\<forall>svc k. quota_failure (always quota_response svc k))
   \<and> 2 \<le> length [credential ''1'', credential ''2'', credential ''3'']
   \<and> distinct (map k_id [credential ''1'', credential ''2'', credential ''3''])
   \<and> length (d_calls (fst (processMessageSending (always quota_response)
        [credential ''1'', credential ''2'', credential ''3''] (Some ''2'') ''17'' empty_app ())))
     = 3
   \<and> list_all is_exhaustion (messages (d_app (fst (processMessageSending (always quota_response)
        [credential ''1'', credential ''2'', credential ''3''] (Some ''2'') ''17'' empty_app ()))))
   \<and> other_failure (always auth_response ()
        (first_key [credential ''1'', credential ''2'', credential ''3''] (Some ''2'')))
   \<and> length (d_calls (fst (processMessageSending (always auth_response)
        [credential ''1'', credential ''2'', credential ''3''] (Some ''2'') ''17'' empty_app ())))
     = 1"
proof -
  let ?keys = "[credential ''1'', credential ''2'', credential ''3'']"
  from dispatch_attempts [of "always quota_response" ?keys "Some ''2''" "''17''" empty_app "()"]
    always_quota three_credentials
  obtain d' m where "processMessageSending (always quota_response) ?keys (Some ''2'') ''17''
                       empty_app () = (d', None)"
    "length (d_calls d') = length ?keys" "messages (d_app d') = messages empty_app @ [m]"
    "is_exhaustion m"
    by blast
  then have quota_part:
    "length (d_calls (fst (processMessageSending (always quota_response) ?keys (Some ''2'')
        ''17'' empty_app ()))) = 3"
    "list_all is_exhaustion (messages (d_app (fst (processMessageSending (always quota_response)
        ?keys (Some ''2'') ''17'' empty_app ()))))"
    by (simp_all add: empty_app_def)
  from dispatch_attempts [of "always auth_response" ?keys "Some ''2''" "''17''" empty_app "()"]
    always_auth [of "()" "first_key ?keys (Some ''2'')"]
  obtain d'' where "processMessageSending (always auth_response) ?keys (Some ''2'') ''17''
                       empty_app () = (d'', None)"
    "d_calls d'' = [first_key ?keys (Some ''2'')]"
    by blast
  then have "length (d_calls (fst (processMessageSending (always auth_response) ?keys (Some ''2'')
        ''17'' empty_app ()))) = 1"
    by simp
  with quota_part always_quota three_credentials
    always_auth [of "()" "first_key ?keys (Some ''2'')"]
  show ?thesis by blast
qed

text \<open>
  Claim C1 as stated fails with a single credential: every attempt fails with
  \<open>QUOTA_EXCEEDED\<close>, the loop makes its one attempt, and the message it appends is the quota
  message of the response, not an exhaustion message. With no credential at all the loop
  still makes one attempt, without a key.
\<close>

theorem single_key_quota_not_exhaustion:
  "(\<forall>svc k. quota_failure (always quota_response svc k))
   \<and> processMessageSending (always quota_response) [credential ''1''] (Some ''1'') ''17''
        empty_app ()
     = (\<lparr>d_app = empty_app\<lparr>messages :=
             [(model_message ''17'' ''I've hit my usage limit for now (Quota Exceeded).'')
                \<lparr>m_isError := Some True\<rparr>]\<rparr>,
         d_svc = (), d_calls = [Some ''key-1'']\<rparr>, None)
   \<and> \<not> is_exhaustion
          ((model_message ''17'' ''I've hit my usage limit for now (Quota Exceeded).'')
             \<lparr>m_isError := Some True\<rparr>)
   \<and> d_calls (fst (processMessageSending (always quota_response) [] None ''17'' empty_app ()))
     = [None]"
proof -
  have none: "d_calls (fst (processMessageSending (always quota_response) [] None ''17''
                empty_app ())) = [None]"
    using single_attempt [where send = "always quota_response" and svc = "()" and apiKeys = "[]"
            and initialKeyId = None and now = "''17''" and app = empty_app and svc' = "()"
            and r = quota_response]
    by (simp add: always_def quota_response_def first_key_def)
  have "always quota_response () (first_key [credential ''1''] (Some ''1''))
        = ((), Some quota_response)"
    by (simp add: always_def)
  moreover have "isError quota_response = Some True"
    by (simp add: quota_response_def)
  moreover have "errorType quota_response \<noteq> Some QUOTA_EXCEEDED \<or> length [credential ''1''] \<le> 1"
    by simp
  ultimately have "processMessageSending (always quota_response) [credential ''1''] (Some ''1'')
        ''17'' empty_app ()
     = (\<lparr>d_app = empty_app\<lparr>messages := messages empty_app
             @ [(model_message ''17'' (r_text quota_response))\<lparr>m_isError := Some True\<rparr>]\<rparr>,
         d_svc = (), d_calls = [first_key [credential ''1''] (Some ''1'')]\<rparr>, None)"
    by (rule single_attempt [where send = "always quota_response" and svc = "()"])
  moreover have "first_key [credential ''1''] (Some ''1'') = Some ''key-1''"
    by (simp add: first_key_def credential_def)
  moreover have "r_text quota_response = ''I've hit my usage limit for now (Quota Exceeded).''"
    by (simp add: quota_response_def plain_response_def)
  moreover have "\<not> is_exhaustion
          ((model_message ''17'' ''I've hit my usage limit for now (Quota Exceeded).'')
             \<lparr>m_isError := Some True\<rparr>)"
    by (simp add: is_exhaustion_def model_message_def EXHAUSTED_AT_START_def
        EXHAUSTED_AFTER_LOOP_def)
  ultimately show ?thesis
    using always_quota none by (simp add: empty_app_def)
qed

section \<open>Properties of the tag stripping\<close>























end
